theory Spec2Isabelle
  imports Main "HOL-Library.AList" "HOL-Library.Char_ord" "HOL-Library.List_Lexorder"
    "HOL-Library.Product_Lexorder"
begin

section \<open>JavaScript values, as the handlers of the API server see them\<close>

text \<open>
  The server is one Express module; each handler reads scalar fields of a JSON body (or
  a route or query parameter), runs parameterised SQL through node-postgres and answers
  with a status and a JSON body. The embedding keeps the JavaScript tests the handlers
  make on those values: truthiness (\<open>!x\<close>, \<open>x || y\<close>, \<open>x ? a : b\<close>), \<open>typeof x === 'string'\<close>,
  \<open>Number(x)\<close>, \<open>trim\<close> and \<open>toLowerCase\<close>.

  A JavaScript number is \<open>NaN\<close>, an integer, or some other number (a fraction or an
  infinity: truthy, and not an integer). Body fields are scalars; a value read back from
  a timestamp column is a \<open>Date\<close>.
\<close>

datatype jsnum = NNaN | NInt int | NFrac

datatype jsval = JUndefined | JNull | JBool bool | JNum jsnum | JStr string | JDate int

fun truthy :: "jsval \<Rightarrow> bool" where
  "truthy JUndefined = False"
| "truthy JNull = False"
| "truthy (JBool b) = b"
| "truthy (JNum NNaN) = False"
| "truthy (JNum (NInt n)) = (n \<noteq> 0)"
| "truthy (JNum NFrac) = True"
| "truthy (JStr s) = (s \<noteq> [])"
| "truthy (JDate t) = True"

text \<open>\<open>a ?? b\<close>: the right operand only when the left one is \<open>null\<close> or \<open>undefined\<close>.\<close>

fun nullish :: "jsval \<Rightarrow> bool" where
  "nullish JUndefined = True"
| "nullish JNull = True"
| "nullish v = False"

text \<open>
  A JSON object with scalar fields, and a row as node-postgres returns it: an association
  list. Reading a property that is not there gives \<open>undefined\<close>.
\<close>

type_synonym jsobj = "(string \<times> jsval) list"

definition js_get :: "jsobj \<Rightarrow> string \<Rightarrow> jsval" where
  "js_get obj k = (case map_of obj k of Some v \<Rightarrow> v | None \<Rightarrow> JUndefined)"

definition hasOwnProperty :: "jsobj \<Rightarrow> string \<Rightarrow> bool" where
  "hasOwnProperty obj k = (k \<in> set (map fst obj))"

section \<open>What the module takes from its libraries and from PostgreSQL\<close>

text \<open>
  The functions below are not code of the repository: \<open>Number\<close> and \<open>String\<close> of the
  JavaScript runtime, its \<open>String.prototype.trim\<close> and \<open>String.prototype.toLowerCase\<close>
  (Unicode white space and case mapping), the \<open>LOWER\<close> of PostgreSQL (which follows the
  locale of the database), \<open>bcrypt.compare\<close> and \<open>bcrypt.hash\<close> of bcryptjs (\<open>None\<close>: the
  promise rejects), PostgreSQL's reading of a text parameter as an integer (\<open>None\<close>:
  the statement raises), the range of its integer columns, and the clock behind
  \<open>new Date()\<close> and \<open>NOW()\<close>. They are parameters of every handler, so every theorem
  holds whatever they compute.
\<close>

record ext =
  str_to_num :: "string \<Rightarrow> jsnum"
  str_of :: "jsval \<Rightarrow> string"
  trim :: "string \<Rightarrow> string"
  toLowerCase :: "string \<Rightarrow> string"
  pg_lower :: "string \<Rightarrow> string"
  bcrypt_compare :: "jsval \<Rightarrow> jsval \<Rightarrow> bool option"
  bcrypt_hash :: "string \<Rightarrow> string"
  int_in :: "string \<Rightarrow> int option"
  int_ok :: "int \<Rightarrow> bool"
  now :: int

fun Number_js :: "ext \<Rightarrow> jsval \<Rightarrow> jsnum" where
  "Number_js x JUndefined = NNaN"
| "Number_js x JNull = NInt 0"
| "Number_js x (JBool b) = NInt (if b then 1 else 0)"
| "Number_js x (JNum n) = n"
| "Number_js x (JStr s) = str_to_num x s"
| "Number_js x (JDate t) = NInt t"

fun String_js :: "ext \<Rightarrow> jsval \<Rightarrow> string" where
  "String_js x (JStr s) = s"
| "String_js x v = str_of x v"

text \<open>
  node-postgres sends every parameter as text (\<open>null\<close> and \<open>undefined\<close> as NULL) and
  PostgreSQL reads it at the type of the column it meets. At an integer column the
  parameter is NULL, an integer in the range of the column, or the statement raises.
\<close>

datatype bound = BErr | BNull | BInt int

fun sql_int :: "ext \<Rightarrow> jsval \<Rightarrow> bound" where
  "sql_int x JUndefined = BNull"
| "sql_int x JNull = BNull"
| "sql_int x (JNum (NInt n)) = (if int_ok x n then BInt n else BErr)"
| "sql_int x (JNum NNaN) = BErr"
| "sql_int x (JNum NFrac) = BErr"
| "sql_int x (JStr s) =
     (case int_in x s of Some n \<Rightarrow> if int_ok x n then BInt n else BErr | None \<Rightarrow> BErr)"
| "sql_int x (JBool b) = BErr"
| "sql_int x (JDate t) = BErr"

fun sql_text :: "ext \<Rightarrow> jsval \<Rightarrow> jsval" where
  "sql_text x JUndefined = JNull"
| "sql_text x JNull = JNull"
| "sql_text x (JStr s) = JStr s"
| "sql_text x v = JStr (str_of x v)"

section \<open>The relational store\<close>

text \<open>
  A table has the columns \<open>information_schema.columns\<close> lists for it (in the order the
  catalogue query returns them), the defaults of its columns, and its rows. The database
  holds the five tables the handlers touch, the enum types of \<open>pg_type\<close>/\<open>pg_enum\<close> with
  their labels in sort order, the foreign keys of the catalogue (table and column to
  referenced table) and the next value of every table's \<open>id\<close> sequence.

  Of the constraints only those the source declares are enforced: the ones of the
  \<open>Message\<close> table, which \<open>ensureMessagesTable\<close> creates.
\<close>

datatype tname = TUser | TCompany | TPost | TComment | TMessage

datatype dflt = Const jsval | Now | Serial

record tbl =
  cols :: "string list"
  defaults :: "(string \<times> dflt) list"
  rows :: "jsobj list"

record db =
  users :: tbl
  companies :: tbl
  posts :: tbl
  comments :: tbl
  messages :: tbl
  enum_types :: "(string \<times> string list) list"
  foreign_keys :: "((tname \<times> string) \<times> string) list"
  seq :: "(tname \<times> int) list"

datatype exn =
    MissingColumn
  | DuplicateColumn
  | BadParameter
  | ConstraintViolation
  | UndefinedObject
  | InjectedFault
  | ReferenceError string

definition nextval :: "db \<Rightarrow> tname \<Rightarrow> int" where
  "nextval d t = (case map_of (seq d) t of Some n \<Rightarrow> n | None \<Rightarrow> 1)"

fun table :: "tname \<Rightarrow> db \<Rightarrow> tbl" where
  "table TUser d = users d"
| "table TCompany d = companies d"
| "table TPost d = posts d"
| "table TComment d = comments d"
| "table TMessage d = messages d"

fun put_table :: "tname \<Rightarrow> tbl \<Rightarrow> db \<Rightarrow> db" where
  "put_table TUser t d = d\<lparr>users := t\<rparr>"
| "put_table TCompany t d = d\<lparr>companies := t\<rparr>"
| "put_table TPost t d = d\<lparr>posts := t\<rparr>"
| "put_table TComment t d = d\<lparr>comments := t\<rparr>"
| "put_table TMessage t d = d\<lparr>messages := t\<rparr>"

text \<open>A column of a row at the SQL level: a value that is not stored is NULL.\<close>

definition col :: "jsobj \<Rightarrow> string \<Rightarrow> jsval" where
  "col r c = (case map_of r c of Some v \<Rightarrow> v | None \<Rightarrow> JNull)"

definition has_cols :: "tbl \<Rightarrow> string list \<Rightarrow> bool" where
  "has_cols t cs = (set cs \<subseteq> set (cols t))"

definition project :: "string list \<Rightarrow> jsobj \<Rightarrow> jsobj" where
  "project cs r = map (\<lambda>c. (c, col r c)) cs"

fun sql_lower :: "ext \<Rightarrow> jsval \<Rightarrow> jsval" where
  "sql_lower x (JStr s) = JStr (pg_lower x s)"
| "sql_lower x v = JNull"

text \<open>
  \<open>a = b\<close> in a WHERE or ON clause is never true when a side is NULL; the id columns
  hold integers.
\<close>

definition sql_eq :: "jsval \<Rightarrow> jsval \<Rightarrow> bool" where
  "sql_eq a b = (a = b \<and> \<not> nullish a)"

definition is_int :: "int \<Rightarrow> jsval \<Rightarrow> bool" where
  "is_int n v = (v = JNum (NInt n))"

text \<open>
  \<open>getTableColumns\<close> and \<open>resolveColumn\<close>. The lower-case map of \<open>resolveColumn\<close>
  keeps, of the columns that differ in case only, the one the catalogue lists last; a
  candidate matches when the map has a non-empty name for its lower-case form.
\<close>

definition getTableColumns :: "db \<Rightarrow> tname \<Rightarrow> string list" where
  "getTableColumns d t = cols (table t d)"

definition lowerMap :: "ext \<Rightarrow> string list \<Rightarrow> string \<Rightarrow> string option" where
  "lowerMap x columns = map_of (rev (map (\<lambda>c. (toLowerCase x c, c)) columns))"

fun resolveColumn :: "ext \<Rightarrow> string list \<Rightarrow> string list \<Rightarrow> string option" where
  "resolveColumn x columns [] = None"
| "resolveColumn x columns (candidate # candidates) =
     (case lowerMap x columns (toLowerCase x candidate) of
        Some match \<Rightarrow> if match \<noteq> [] then Some match else resolveColumn x columns candidates
      | None \<Rightarrow> resolveColumn x columns candidates)"

text \<open>\<open>getForeignKeyTarget\<close>: the table the first foreign key on the column references.\<close>

definition getForeignKeyTarget :: "db \<Rightarrow> tname \<Rightarrow> string \<Rightarrow> string option" where
  "getForeignKeyTarget d t c = map_of (foreign_keys d) (t, c)"

text \<open>
  Writing a row. A parameter bound to an integer column raises when it is not an
  integer; \<open>INSERT\<close> raises when it names a column the table lacks or names one
  twice, gives every column that is not named its default (NULL when it has none) and
  returns the new row; the sequence moves on when a \<open>Serial\<close> default was used.
\<close>

definition bind_int :: "ext \<Rightarrow> jsval \<Rightarrow> exn + jsval" where
  "bind_int x v =
     (case sql_int x v of BErr \<Rightarrow> Inl BadParameter | BNull \<Rightarrow> Inr JNull
      | BInt n \<Rightarrow> Inr (JNum (NInt n)))"

definition default_value :: "ext \<Rightarrow> tbl \<Rightarrow> int \<Rightarrow> string \<Rightarrow> jsval" where
  "default_value x t n c =
     (case map_of (defaults t) c of
        None \<Rightarrow> JNull
      | Some (Const v) \<Rightarrow> v
      | Some Now \<Rightarrow> JDate (now x)
      | Some Serial \<Rightarrow> JNum (NInt n))"

definition new_row :: "ext \<Rightarrow> tbl \<Rightarrow> int \<Rightarrow> jsobj \<Rightarrow> jsobj" where
  "new_row x t n supplied =
     map (\<lambda>c. (c, case map_of supplied c of Some v \<Rightarrow> v | None \<Rightarrow> default_value x t n c))
       (cols t)"

definition uses_serial :: "tbl \<Rightarrow> jsobj \<Rightarrow> bool" where
  "uses_serial t supplied =
     (\<exists>c \<in> set (cols t). c \<notin> set (map fst supplied) \<and> map_of (defaults t) c = Some Serial)"

definition insert_row :: "ext \<Rightarrow> tname \<Rightarrow> jsobj \<Rightarrow> db \<Rightarrow> exn + jsobj \<times> db" where
  "insert_row x t supplied d =
     (let tb = table t d in
      if \<not> set (map fst supplied) \<subseteq> set (cols tb) then Inl MissingColumn
      else if \<not> distinct (map fst supplied) then Inl DuplicateColumn
      else
        let r = new_row x tb (nextval d t) supplied;
            d' = put_table t (tb\<lparr>rows := rows tb @ [r]\<rparr>) d
        in Inr (r, if uses_serial tb supplied
                   then d'\<lparr>seq := AList.update t (nextval d t + 1) (seq d)\<rparr> else d'))"

definition delete_where :: "tname \<Rightarrow> (jsobj \<Rightarrow> bool) \<Rightarrow> db \<Rightarrow> db" where
  "delete_where t P d = put_table t ((table t d)\<lparr>rows := filter (\<lambda>r. \<not> P r) (rows (table t d))\<rparr>) d"

fun set_cols :: "(string \<times> jsval) list \<Rightarrow> jsobj \<Rightarrow> jsobj" where
  "set_cols [] r = r"
| "set_cols ((k, v) # kvs) r = set_cols kvs (AList.update k v r)"

section \<open>Responses\<close>

datatype body =
    Msg string
  | Failure exn
  | Session string jsobj
  | Obj jsobj
  | Objs "jsobj list"

record response =
  status :: nat
  body :: body

definition reply :: "nat \<Rightarrow> body \<Rightarrow> response" where
  "reply s b = \<lparr>status = s, body = b\<rparr>"

section \<open>POST /api/auth/login\<close>

definition login_columns :: "string list" where
  "login_columns = [''id'', ''email'', ''password'', ''role'', ''companyId'']"

text \<open>
  \<open>SELECT id, email, password, role, "companyId" FROM "User" WHERE LOWER(email) = $1 LIMIT 1\<close>:
  the statement raises when the table lacks one of the columns; \<open>LIMIT 1\<close> without an
  order keeps the first matching row of the table.
\<close>

definition first_user :: "ext \<Rightarrow> db \<Rightarrow> string \<Rightarrow> jsobj option" where
  "first_user x d e = find (\<lambda>r. sql_lower x (col r ''email'') = JStr e) (rows (users d))"

definition login_query :: "ext \<Rightarrow> db \<Rightarrow> string \<Rightarrow> exn + jsobj option" where
  "login_query x d e =
     (if \<not> has_cols (users d) login_columns then Inl MissingColumn
      else Inr (map_option (project login_columns) (first_user x d e)))"

definition normalizedEmail :: "ext \<Rightarrow> jsobj \<Rightarrow> string" where
  "normalizedEmail x b =
     (case js_get b ''email'' of JStr s \<Rightarrow> toLowerCase x (trim x s) | _ \<Rightarrow> [])"

definition requestedRole :: "ext \<Rightarrow> jsobj \<Rightarrow> jsval" where
  "requestedRole x b = (case js_get b ''role'' of JStr s \<Rightarrow> JStr (toLowerCase x s) | _ \<Rightarrow> JNull)"

definition userRole :: "ext \<Rightarrow> jsobj \<Rightarrow> jsval" where
  "userRole x user = (case js_get user ''role'' of JStr s \<Rightarrow> JStr (toLowerCase x s) | v \<Rightarrow> v)"

definition role_mismatch :: "ext \<Rightarrow> jsobj \<Rightarrow> jsobj \<Rightarrow> bool" where
  "role_mismatch x b user = (truthy (requestedRole x b) \<and> userRole x user \<noteq> requestedRole x b)"

definition safeUser :: "ext \<Rightarrow> jsobj \<Rightarrow> jsobj" where
  "safeUser x user =
     [(''id'', js_get user ''id''), (''email'', js_get user ''email''),
      (''role'', userRole x user), (''companyId'', js_get user ''companyId'')]"

definition login :: "ext \<Rightarrow> db \<Rightarrow> jsobj \<Rightarrow> response" where
  "login x d b =
     (if normalizedEmail x b = [] \<or> \<not> truthy (js_get b ''password'')
      then reply 400 (Msg ''Email and password are required.'')
      else case login_query x d (normalizedEmail x b) of
        Inl e \<Rightarrow> reply 500 (Msg ''Server error.'')
      | Inr None \<Rightarrow> reply 401 (Msg ''Invalid credentials.'')
      | Inr (Some user) \<Rightarrow>
          (if role_mismatch x b user
           then reply 401 (Msg ''Invalid role for this account.'')
           else (case bcrypt_compare x (js_get b ''password'') (js_get user ''password'') of
              None \<Rightarrow> reply 500 (Msg ''Server error.'')
            | Some False \<Rightarrow> reply 401 (Msg ''Invalid credentials.'')
            | Some True \<Rightarrow> reply 200 (Session ''dev-session-token'' (safeUser x user)))))"

text \<open>The token of a response, when it carries one.\<close>

fun token_of :: "response \<Rightarrow> string option" where
  "token_of r = (case body r of Session t u \<Rightarrow> Some t | _ \<Rightarrow> None)"

text \<open>
  The role of a stored row as the handler compares and returns it, and the role check
  on that row: a role is checked only when the request gives one as a non-empty string.
\<close>

definition stored_role :: "ext \<Rightarrow> jsobj \<Rightarrow> jsval" where
  "stored_role x r = (case col r ''role'' of JStr s \<Rightarrow> JStr (toLowerCase x s) | v \<Rightarrow> v)"

definition role_rejected :: "ext \<Rightarrow> jsobj \<Rightarrow> jsobj \<Rightarrow> bool" where
  "role_rejected x b r = (truthy (requestedRole x b) \<and> stored_role x r \<noteq> requestedRole x b)"

section \<open>PUT /api/admin/companies/:id\<close>

definition company_fields :: "string list" where
  "company_fields =
     [''name'', ''industry'', ''location'', ''website'', ''email'', ''phone'', ''status'',
      ''description'']"

text \<open>\<open>value === '' ? null : value\<close>\<close>

definition normalized :: "jsval \<Rightarrow> jsval" where
  "normalized v = (if v = JStr [] then JNull else v)"

text \<open>
  The \<open>forEach\<close> over the eight fields: a field is set when the table has its column and
  the body has the key. The time stamp is added only when a field is set.
\<close>

definition update_sets :: "ext \<Rightarrow> string list \<Rightarrow> jsobj \<Rightarrow> (string \<times> jsval) list" where
  "update_sets x companyColumns b =
     map (\<lambda>k. (k, sql_text x (normalized (js_get b k))))
       (filter (\<lambda>k. k \<in> set companyColumns \<and> hasOwnProperty b k) company_fields)"

definition stamp_update :: "ext \<Rightarrow> string list \<Rightarrow> (string \<times> jsval) list \<Rightarrow> (string \<times> jsval) list" where
  "stamp_update x companyColumns sets =
     (if ''updatedAt'' \<in> set companyColumns \<and> sets \<noteq> [] then sets @ [(''updatedAt'', JDate (now x))]
      else if ''updated_at'' \<in> set companyColumns \<and> sets \<noteq> [] then sets @ [(''updated_at'', JDate (now x))]
      else sets)"

text \<open>\<open>UPDATE "Company" SET ... WHERE id = $n RETURNING *\<close>: the rows it changed.\<close>

definition update_company_query ::
  "ext \<Rightarrow> (string \<times> jsval) list \<Rightarrow> jsnum \<Rightarrow> db \<Rightarrow> exn + jsobj list \<times> db" where
  "update_company_query x sets companyId d =
     (if ''id'' \<notin> set (cols (companies d)) then Inl MissingColumn
      else case sql_int x (JNum companyId) of
        BErr \<Rightarrow> Inl BadParameter
      | BNull \<Rightarrow> Inr ([], d)
      | BInt n \<Rightarrow>
          Inr (map (set_cols sets) (filter (\<lambda>r. is_int n (col r ''id'')) (rows (companies d))),
               d\<lparr>companies := (companies d)\<lparr>rows :=
                   map (\<lambda>r. if is_int n (col r ''id'') then set_cols sets r else r)
                     (rows (companies d))\<rparr>\<rparr>))"

definition update_company :: "ext \<Rightarrow> db \<Rightarrow> string \<Rightarrow> jsobj \<Rightarrow> response \<times> db" where
  "update_company x d id_param b =
     (let companyId = str_to_num x id_param in
      if \<not> truthy (JNum companyId) then (reply 400 (Msg ''Invalid company id.''), d)
      else
        let companyColumns = getTableColumns d TCompany;
            sets = stamp_update x companyColumns (update_sets x companyColumns b)
        in if sets = [] then (reply 400 (Msg ''No fields to update.''), d)
           else (case update_company_query x sets companyId d of
              Inl e \<Rightarrow> (reply 500 (Failure e), d)
            | Inr ([], d') \<Rightarrow> (reply 404 (Msg ''Company not found.''), d')
            | Inr (r # rs, d') \<Rightarrow> (reply 200 (Obj r), d')))"

section \<open>A pooled connection, transactions and faults\<close>

text \<open>
  The two handlers that write several tables take a client from the pool and wrap
  their statements in \<open>BEGIN\<close> ... \<open>COMMIT\<close>, with \<open>ROLLBACK\<close> before every early answer
  and in the \<open>catch\<close> block. A connection has the committed database, the state of its
  open transaction if there is one, and the statements issued so far. A statement may
  raise for a reason the model does not see (a lost connection, a constraint of a table
  whose DDL the repository does not have): the oracle \<open>fails\<close> says, by the number of
  statements issued before it, which one does. Sequences are not transactional: a
  rollback keeps their values.
\<close>

datatype stmt =
    Begin | Commit | Rollback
  | Columns tname
  | Select string
  | Insert tname
  | Delete tname
  | AlterType string

record conn =
  base :: db
  tx :: "db option"
  trace :: "stmt list"

type_synonym 'a io = "conn \<Rightarrow> (exn + 'a) \<times> conn"

definition ret :: "'a \<Rightarrow> 'a io" where
  "ret a c = (Inr a, c)"

definition bnd :: "'a io \<Rightarrow> ('a \<Rightarrow> 'b io) \<Rightarrow> 'b io" where
  "bnd m f c = (case m c of (Inl e, c') \<Rightarrow> (Inl e, c') | (Inr a, c') \<Rightarrow> f a c')"

definition current :: "conn \<Rightarrow> db" where
  "current c = (case tx c of Some w \<Rightarrow> w | None \<Rightarrow> base c)"

definition put_current :: "db \<Rightarrow> conn \<Rightarrow> conn" where
  "put_current d c = (case tx c of Some w \<Rightarrow> c\<lparr>tx := Some d\<rparr> | None \<Rightarrow> c\<lparr>base := d\<rparr>)"

definition issue :: "stmt \<Rightarrow> conn \<Rightarrow> conn" where
  "issue s c = c\<lparr>trace := trace c @ [s]\<rparr>"

text \<open>\<open>client.query\<close>: a statement on the connection, inside its transaction if one is open.\<close>

definition client_query :: "(nat \<Rightarrow> bool) \<Rightarrow> stmt \<Rightarrow> (db \<Rightarrow> exn + 'a \<times> db) \<Rightarrow> 'a io" where
  "client_query fails s sem c =
     (if fails (length (trace c)) then (Inl InjectedFault, issue s c)
      else case sem (current c) of
        Inl e \<Rightarrow> (Inl e, issue s c)
      | Inr (a, d') \<Rightarrow> (Inr a, put_current d' (issue s c)))"

text \<open>
  \<open>pool.query\<close> from inside such a handler (\<open>getTableColumns\<close>): a read on another
  connection, which sees the committed database.
\<close>

definition pool_read :: "(nat \<Rightarrow> bool) \<Rightarrow> stmt \<Rightarrow> (db \<Rightarrow> 'a) \<Rightarrow> 'a io" where
  "pool_read fails s f c =
     (if fails (length (trace c)) then (Inl InjectedFault, issue s c)
      else (Inr (f (base c)), issue s c))"

definition begin_tx :: "conn \<Rightarrow> conn" where
  "begin_tx c = (case tx c of None \<Rightarrow> c\<lparr>tx := Some (base c)\<rparr> | Some w \<Rightarrow> c)"

definition commit_tx :: "conn \<Rightarrow> conn" where
  "commit_tx c = c\<lparr>base := current c, tx := None\<rparr>"

definition rollback_tx :: "conn \<Rightarrow> conn" where
  "rollback_tx c = c\<lparr>base := (base c)\<lparr>seq := seq (current c)\<rparr>, tx := None\<rparr>"

definition control :: "(nat \<Rightarrow> bool) \<Rightarrow> stmt \<Rightarrow> (conn \<Rightarrow> conn) \<Rightarrow> unit io" where
  "control fails s f c =
     (if fails (length (trace c)) then (Inl InjectedFault, issue s c)
      else (Inr (), f (issue s c)))"

text \<open>
  \<open>try { ... } catch (error) { await client.query('ROLLBACK'); return res.status(500)... }\<close>
\<close>

definition try_catch :: "response io \<Rightarrow> conn \<Rightarrow> response \<times> conn" where
  "try_catch m c =
     (case m c of
        (Inr r, c') \<Rightarrow> (r, c')
      | (Inl e, c') \<Rightarrow> (reply 500 (Failure e), rollback_tx (issue Rollback c')))"

section \<open>POST /api/admin/companies\<close>

definition optional_fields :: "string list" where
  "optional_fields =
     [''industry'', ''location'', ''website'', ''email'', ''phone'', ''status'', ''description'']"

text \<open>
  The columns and values of the \<open>INSERT\<close>: the trimmed name, every optional field that
  has a column and is not \<open>undefined\<close>, and the time stamp when the table has one.
\<close>

definition stamp_insert :: "ext \<Rightarrow> string list \<Rightarrow> (string \<times> jsval) list" where
  "stamp_insert x columns =
     (if ''updatedAt'' \<in> set columns then [(''updatedAt'', JDate (now x))]
      else if ''updated_at'' \<in> set columns then [(''updated_at'', JDate (now x))]
      else [])"

definition company_values :: "ext \<Rightarrow> string list \<Rightarrow> jsobj \<Rightarrow> string \<Rightarrow> (string \<times> jsval) list" where
  "company_values x companyColumns b name =
     (''name'', JStr (trim x name)) #
     map (\<lambda>k. (k, sql_text x (normalized (js_get b k))))
       (filter (\<lambda>k. k \<in> set companyColumns \<and> js_get b k \<noteq> JUndefined) optional_fields) @
     stamp_insert x companyColumns"

text \<open>
  The labels of the enum types named \<open>Role\<close> whatever the case, and the first type named
  \<open>Role\<close> or \<open>role\<close>. \<open>ALTER TYPE ... ADD VALUE IF NOT EXISTS\<close> adds the label to that type.
\<close>

definition enum_labels :: "ext \<Rightarrow> string \<Rightarrow> db \<Rightarrow> string list" where
  "enum_labels x name d =
     concat (map snd (filter (\<lambda>t. pg_lower x (fst t) = pg_lower x name) (enum_types d)))"

definition role_typname :: "db \<Rightarrow> string option" where
  "role_typname d =
     map_option fst (find (\<lambda>t. fst t = ''Role'' \<or> fst t = ''role'') (enum_types d))"

definition add_enum_value :: "string \<Rightarrow> string \<Rightarrow> db \<Rightarrow> exn + unit \<times> db" where
  "add_enum_value typeName v d =
     (if typeName \<notin> set (map fst (enum_types d)) then Inl UndefinedObject
      else Inr ((), d\<lparr>enum_types :=
             map (\<lambda>t. if fst t = typeName \<and> v \<notin> set (snd t) then (fst t, snd t @ [v]) else t)
               (enum_types d)\<rparr>))"

text \<open>\<open>/^[A-Za-z0-9_]+$/.test(typeName)\<close>\<close>

definition word_chars :: string where
  "word_chars = ''ABCDEFGHIJKLMNOPQRSTUVWXYZabcdefghijklmnopqrstuvwxyz0123456789_''"

definition is_word :: "string \<Rightarrow> bool" where
  "is_word s = (s \<noteq> [] \<and> set s \<subseteq> set word_chars)"

definition matched_label :: "ext \<Rightarrow> string list \<Rightarrow> jsval \<Rightarrow> jsval" where
  "matched_label x labels otherwise =
     (case find (\<lambda>v. toLowerCase x v = ''company'') labels of Some v \<Rightarrow> JStr v | None \<Rightarrow> otherwise)"

text \<open>
  The role of the new user: \<open>company\<close> when there is no enum, the enum's own spelling of
  it when it has one, and otherwise the label added to the type at request time;
  \<open>None\<close> when the type cannot be altered, which the handler answers with 400.
\<close>

definition resolve_role :: "ext \<Rightarrow> (nat \<Rightarrow> bool) \<Rightarrow> string list \<Rightarrow> jsval option io" where
  "resolve_role x fails enumValues =
     (if enumValues = [] then ret (Some (JStr ''company''))
      else if ''company'' \<notin> set (map (toLowerCase x) enumValues) then
        bnd (client_query fails (Select ''pg_type'') (\<lambda>d. Inr (role_typname d, d))) (\<lambda>typeName.
          case typeName of
            None \<Rightarrow> ret None
          | Some tn \<Rightarrow>
              if is_word tn then
                bnd (client_query fails (AlterType tn) (add_enum_value tn ''company'')) (\<lambda>u.
                bnd (client_query fails (Select ''pg_enum'') (\<lambda>d. Inr (enum_labels x tn d, d)))
                  (\<lambda>refreshedValues.
                ret (Some (matched_label x refreshedValues (JStr ''company'')))))
              else ret None)
      else ret (Some (matched_label x enumValues JUndefined)))"

text \<open>\<open>SELECT id FROM "User" WHERE LOWER(email) = LOWER($1) LIMIT 1\<close>\<close>

definition existing_user :: "ext \<Rightarrow> jsval \<Rightarrow> db \<Rightarrow> exn + jsobj list \<times> db" where
  "existing_user x email d =
     (if \<not> has_cols (users d) [''id'', ''email''] then Inl MissingColumn
      else Inr (take 1 (map (project [''id''])
                  (filter (\<lambda>r. sql_eq (sql_lower x (col r ''email'')) (sql_lower x (sql_text x email)))
                     (rows (users d)))), d))"

definition user_values :: "ext \<Rightarrow> string list \<Rightarrow> jsobj \<Rightarrow> jsval \<Rightarrow> jsval \<Rightarrow> (string \<times> jsval) list" where
  "user_values x userColumns b roleValue companyId =
     [(''email'', sql_text x (js_get b ''email'')),
      (''password'', JStr (bcrypt_hash x (String_js x (js_get b ''password'')))),
      (''role'', sql_text x roleValue),
      (''companyId'', companyId)] @ stamp_insert x userColumns"

definition insert_user :: "ext \<Rightarrow> string list \<Rightarrow> jsobj \<Rightarrow> jsval \<Rightarrow> jsobj \<Rightarrow> db \<Rightarrow> exn + jsobj \<times> db" where
  "insert_user x userColumns b roleValue company d =
     (case bind_int x (js_get company ''id'') of
        Inl e \<Rightarrow> Inl e
      | Inr companyId \<Rightarrow> insert_row x TUser (user_values x userColumns b roleValue companyId) d)"

definition canCreateUser :: "string list \<Rightarrow> bool" where
  "canCreateUser userColumns = (set [''email'', ''password'', ''role'', ''companyId''] \<subseteq> set userColumns)"

definition commit_and_answer :: "(nat \<Rightarrow> bool) \<Rightarrow> response \<Rightarrow> response io" where
  "commit_and_answer fails r = bnd (control fails Commit commit_tx) (\<lambda>u. ret r)"

definition rollback_and_answer :: "(nat \<Rightarrow> bool) \<Rightarrow> response \<Rightarrow> response io" where
  "rollback_and_answer fails r = bnd (control fails Rollback rollback_tx) (\<lambda>u. ret r)"

definition create_user :: "ext \<Rightarrow> (nat \<Rightarrow> bool) \<Rightarrow> jsobj \<Rightarrow> jsobj \<Rightarrow> string list \<Rightarrow> response io" where
  "create_user x fails b company userColumns =
     bnd (client_query fails (Select ''pg_enum'') (\<lambda>d. Inr (enum_labels x ''Role'' d, d))) (\<lambda>enumValues.
     bnd (resolve_role x fails enumValues) (\<lambda>role.
       case role of
         None \<Rightarrow>
           rollback_and_answer fails (reply 400
             (Msg (''Role enum does not include '' @ [CHR 0x22] @ ''company'' @ [CHR 0x22] @
                  '' and could not be updated automatically.'')))
       | Some roleValue \<Rightarrow>
           bnd (client_query fails (Select ''User'') (existing_user x (js_get b ''email''))) (\<lambda>existingUser.
             if existingUser \<noteq> [] then
               rollback_and_answer fails (reply 400 (Msg ''Email already exists.''))
             else
               bnd (client_query fails (Insert TUser) (insert_user x userColumns b roleValue company))
                 (\<lambda>u. commit_and_answer fails (reply 200 (Obj company))))))"

definition create_company_rest :: "ext \<Rightarrow> (nat \<Rightarrow> bool) \<Rightarrow> jsobj \<Rightarrow> jsobj \<Rightarrow> response io" where
  "create_company_rest x fails b company =
     (if truthy (js_get b ''email'') \<and> truthy (js_get b ''password'') then
        bnd (pool_read fails (Columns TUser) (\<lambda>d. getTableColumns d TUser)) (\<lambda>userColumns.
          if canCreateUser userColumns then create_user x fails b company userColumns
          else commit_and_answer fails (reply 200 (Obj company)))
      else commit_and_answer fails (reply 200 (Obj company)))"

definition create_company_steps :: "ext \<Rightarrow> (nat \<Rightarrow> bool) \<Rightarrow> jsobj \<Rightarrow> string \<Rightarrow> response io" where
  "create_company_steps x fails b name =
     bnd (pool_read fails (Columns TCompany) (\<lambda>d. getTableColumns d TCompany)) (\<lambda>companyColumns.
     bnd (client_query fails (Insert TCompany)
            (insert_row x TCompany (company_values x companyColumns b name)))
       (create_company_rest x fails b))"

definition create_company_body :: "ext \<Rightarrow> (nat \<Rightarrow> bool) \<Rightarrow> jsobj \<Rightarrow> string \<Rightarrow> response io" where
  "create_company_body x fails b name =
     bnd (control fails Begin begin_tx) (\<lambda>u. create_company_steps x fails b name)"

definition create_company :: "ext \<Rightarrow> (nat \<Rightarrow> bool) \<Rightarrow> jsobj \<Rightarrow> conn \<Rightarrow> response \<times> conn" where
  "create_company x fails b c =
     (case js_get b ''name'' of
        JStr name \<Rightarrow>
          if name = [] then (reply 400 (Msg ''name is required.''), c)
          else try_catch (create_company_body x fails b name) c
      | v \<Rightarrow> (reply 400 (Msg ''name is required.''), c))"

section \<open>DELETE /api/admin/companies/:id\<close>

text \<open>
  \<open>quoteIdentifier\<close> makes a resolved column name a quoted identifier, which names
  exactly that column; the statements below take the name itself.
\<close>

definition delete_eq :: "ext \<Rightarrow> tname \<Rightarrow> string \<Rightarrow> jsnum \<Rightarrow> db \<Rightarrow> exn + unit \<times> db" where
  "delete_eq x t c companyId d =
     (if c \<notin> set (cols (table t d)) then Inl MissingColumn
      else case sql_int x (JNum companyId) of
        BErr \<Rightarrow> Inl BadParameter
      | BNull \<Rightarrow> Inr ((), d)
      | BInt n \<Rightarrow> Inr ((), delete_where t (\<lambda>r. is_int n (col r c)) d))"

text \<open>\<open>DELETE FROM "Message" WHERE "senderCompanyId" = $1 OR "receiverCompanyId" = $1\<close>\<close>

definition names_company :: "int \<Rightarrow> jsobj \<Rightarrow> bool" where
  "names_company n r =
     (is_int n (col r ''senderCompanyId'') \<or> is_int n (col r ''receiverCompanyId''))"

definition delete_messages :: "ext \<Rightarrow> jsnum \<Rightarrow> db \<Rightarrow> exn + unit \<times> db" where
  "delete_messages x companyId d =
     (if \<not> has_cols (messages d) [''senderCompanyId'', ''receiverCompanyId''] then Inl MissingColumn
      else case sql_int x (JNum companyId) of
        BErr \<Rightarrow> Inl BadParameter
      | BNull \<Rightarrow> Inr ((), d)
      | BInt n \<Rightarrow>
          Inr ((), delete_where TMessage (names_company n) d))"

text \<open>\<open>DELETE FROM "Comment" WHERE c IN (SELECT id FROM t WHERE k = $1)\<close>\<close>

definition ids_where :: "tname \<Rightarrow> string \<Rightarrow> int \<Rightarrow> db \<Rightarrow> jsval list" where
  "ids_where t k n d = map (\<lambda>r. col r ''id'') (filter (\<lambda>r. is_int n (col r k)) (rows (table t d)))"

definition delete_comments_in :: "ext \<Rightarrow> string \<Rightarrow> tname \<Rightarrow> string \<Rightarrow> jsnum \<Rightarrow> db \<Rightarrow> exn + unit \<times> db" where
  "delete_comments_in x c t k companyId d =
     (if c \<notin> set (cols (comments d)) \<or> \<not> has_cols (table t d) [''id'', k] then Inl MissingColumn
      else case sql_int x (JNum companyId) of
        BErr \<Rightarrow> Inl BadParameter
      | BNull \<Rightarrow> Inr ((), d)
      | BInt n \<Rightarrow>
          Inr ((), delete_where TComment
                 (\<lambda>r. \<exists>i \<in> set (ids_where t k n d). sql_eq (col r c) i) d))"

text \<open>\<open>DELETE FROM "Company" WHERE id = $1 RETURNING id\<close>\<close>

definition delete_company_row :: "ext \<Rightarrow> jsnum \<Rightarrow> db \<Rightarrow> exn + jsobj list \<times> db" where
  "delete_company_row x companyId d =
     (if ''id'' \<notin> set (cols (companies d)) then Inl MissingColumn
      else case sql_int x (JNum companyId) of
        BErr \<Rightarrow> Inl BadParameter
      | BNull \<Rightarrow> Inr ([], d)
      | BInt n \<Rightarrow>
          Inr (map (project [''id'']) (filter (\<lambda>r. is_int n (col r ''id'')) (rows (companies d))),
               delete_where TCompany (\<lambda>r. is_int n (col r ''id'')) d))"

text \<open>A statement under \<open>if (column)\<close>, and one under \<open>if (column && other)\<close>.\<close>

definition when_col :: "string option \<Rightarrow> (string \<Rightarrow> unit io) \<Rightarrow> unit io" where
  "when_col column m = (case column of None \<Rightarrow> ret () | Some c \<Rightarrow> m c)"

definition when_cols :: "string option \<Rightarrow> string option \<Rightarrow> (string \<Rightarrow> string \<Rightarrow> unit io) \<Rightarrow> unit io" where
  "when_cols column other m =
     (case column of None \<Rightarrow> ret () | Some c \<Rightarrow> (case other of None \<Rightarrow> ret () | Some k \<Rightarrow> m c k))"

record resolved =
  userCompanyColumn :: "string option"
  postAuthorColumn :: "string option"
  commentPostColumn :: "string option"
  commentCompanyColumn :: "string option"
  commentUserColumn :: "string option"
  commentAuthorColumn :: "string option"

definition resolve_delete_columns ::
  "ext \<Rightarrow> string list \<Rightarrow> string list \<Rightarrow> string list \<Rightarrow> resolved" where
  "resolve_delete_columns x userColumns postColumns commentColumns =
     \<lparr>userCompanyColumn = resolveColumn x userColumns [''companyId'', ''company_id''],
      postAuthorColumn = resolveColumn x postColumns [''authorId'', ''author_id''],
      commentPostColumn = resolveColumn x commentColumns [''postId'', ''post_id''],
      commentCompanyColumn = resolveColumn x commentColumns [''companyId'', ''company_id''],
      commentUserColumn = resolveColumn x commentColumns [''userId'', ''user_id''],
      commentAuthorColumn = resolveColumn x commentColumns [''authorId'', ''author_id'']\<rparr>"

definition delete_dependents :: "ext \<Rightarrow> (nat \<Rightarrow> bool) \<Rightarrow> jsnum \<Rightarrow> resolved \<Rightarrow> unit io" where
  "delete_dependents x fails companyId rc =
     bnd (client_query fails (Delete TMessage) (delete_messages x companyId)) (\<lambda>u.
     bnd (when_col (commentCompanyColumn rc) (\<lambda>c.
            client_query fails (Delete TComment) (delete_eq x TComment c companyId))) (\<lambda>u.
     bnd (when_col (commentAuthorColumn rc) (\<lambda>c.
            client_query fails (Delete TComment) (delete_eq x TComment c companyId))) (\<lambda>u.
     bnd (when_cols (commentUserColumn rc) (userCompanyColumn rc) (\<lambda>c k.
            client_query fails (Delete TComment) (delete_comments_in x c TUser k companyId))) (\<lambda>u.
     bnd (when_cols (commentPostColumn rc) (postAuthorColumn rc) (\<lambda>c k.
            client_query fails (Delete TComment) (delete_comments_in x c TPost k companyId))) (\<lambda>u.
     bnd (when_col (postAuthorColumn rc) (\<lambda>c.
            client_query fails (Delete TPost) (delete_eq x TPost c companyId))) (\<lambda>u.
     when_col (userCompanyColumn rc) (\<lambda>c.
            client_query fails (Delete TUser) (delete_eq x TUser c companyId))))))))"

definition delete_company_steps :: "ext \<Rightarrow> (nat \<Rightarrow> bool) \<Rightarrow> jsnum \<Rightarrow> response io" where
  "delete_company_steps x fails companyId =
     bnd (pool_read fails (Columns TUser) (\<lambda>d. getTableColumns d TUser)) (\<lambda>userColumns.
     bnd (pool_read fails (Columns TPost) (\<lambda>d. getTableColumns d TPost)) (\<lambda>postColumns.
     bnd (pool_read fails (Columns TComment) (\<lambda>d. getTableColumns d TComment)) (\<lambda>commentColumns.
     bnd (delete_dependents x fails companyId
            (resolve_delete_columns x userColumns postColumns commentColumns)) (\<lambda>u.
     bnd (client_query fails (Delete TCompany) (delete_company_row x companyId)) (\<lambda>deleted.
       if deleted = [] then rollback_and_answer fails (reply 404 (Msg ''Company not found.''))
       else commit_and_answer fails (reply 200 (Obj [(''id'', JNum companyId)])))))))"

definition delete_company_body :: "ext \<Rightarrow> (nat \<Rightarrow> bool) \<Rightarrow> jsnum \<Rightarrow> response io" where
  "delete_company_body x fails companyId =
     bnd (control fails Begin begin_tx) (\<lambda>u. delete_company_steps x fails companyId)"

definition delete_company :: "ext \<Rightarrow> (nat \<Rightarrow> bool) \<Rightarrow> string \<Rightarrow> conn \<Rightarrow> response \<times> conn" where
  "delete_company x fails id_param c =
     (let companyId = str_to_num x id_param in
      if \<not> truthy (JNum companyId) then (reply 400 (Msg ''Invalid company id.''), c)
      else try_catch (delete_company_body x fails companyId) c)"

section \<open>Queries with joins, groups and orders\<close>

text \<open>
  \<open>GROUP BY\<close>: one group for every distinct key, in the order of first appearance (NULLs
  count as equal there). \<open>ORDER BY ... ASC\<close> puts NULLs last, \<open>DESC\<close> first; a text
  column is ordered by its bytes.
\<close>

definition group_by :: "('a \<Rightarrow> 'k) \<Rightarrow> 'a list \<Rightarrow> 'a list list" where
  "group_by key xs = map (\<lambda>k. filter (\<lambda>x. key x = k) xs) (remdups (map key xs))"

definition created_key :: "jsobj \<Rightarrow> nat \<times> int" where
  "created_key r = (case col r ''createdAt'' of JDate t \<Rightarrow> (0, t) | v \<Rightarrow> (1, 0))"

definition name_key :: "jsobj \<Rightarrow> nat \<times> string" where
  "name_key r = (case col r ''name'' of JStr s \<Rightarrow> (0, s) | v \<Rightarrow> (1, []))"

text \<open>\<open>a LEFT JOIN b ON ...\<close>: every match of a row, or the row alone when it has none.\<close>

definition left_join :: "'a \<Rightarrow> 'b list \<Rightarrow> ('a \<times> 'b option) list" where
  "left_join a bs = (if bs = [] then [(a, None)] else map (\<lambda>b. (a, Some b)) bs)"

text \<open>\<open>COUNT(t.id)\<close> over the rows of a group: the joined rows whose \<open>id\<close> is not NULL.\<close>

definition count_ids :: "jsobj option list \<Rightarrow> jsval" where
  "count_ids rs =
     JNum (NInt (int (length (filter (\<lambda>r. case r of Some t \<Rightarrow> \<not> nullish (col t ''id'') | None \<Rightarrow> False) rs))))"

section \<open>GET /api/companies\<close>

definition present_optional :: "string list \<Rightarrow> string list" where
  "present_optional companyColumns = filter (\<lambda>k. k \<in> set companyColumns) optional_fields"

definition company_joined :: "db \<Rightarrow> (jsobj \<times> jsobj option) list" where
  "company_joined d =
     concat (map (\<lambda>c. left_join c
                     (filter (\<lambda>u. sql_eq (col u ''companyId'') (col c ''id'')) (rows (users d))))
               (rows (companies d)))"

definition company_group_key :: "string list \<Rightarrow> jsobj \<times> jsobj option \<Rightarrow> jsval list" where
  "company_group_key companyColumns g =
     map (col (fst g)) ([''id'', ''name''] @ present_optional companyColumns)"

text \<open>
  The select list: \<open>c.id, c.name\<close>, then for each optional column \<open>c.k AS k\<close> when the
  table has it and \<open>NULL::text AS k\<close> otherwise, then \<open>COUNT(u.id)::int AS employees\<close>.
\<close>

definition company_listing_row :: "string list \<Rightarrow> (jsobj \<times> jsobj option) list \<Rightarrow> jsobj" where
  "company_listing_row companyColumns g =
     (case g of
        [] \<Rightarrow> []
      | (c, u) # rest \<Rightarrow>
          [(''id'', col c ''id''), (''name'', col c ''name'')] @
          map (\<lambda>k. (k, if k \<in> set companyColumns then col c k else JNull)) optional_fields @
          [(''employees'', count_ids (map snd g))])"

definition companies_query :: "db \<Rightarrow> exn + jsobj list" where
  "companies_query d =
     (if \<not> has_cols (companies d) [''id'', ''name''] \<or> \<not> has_cols (users d) [''id'', ''companyId'']
      then Inl MissingColumn
      else
        let companyColumns = getTableColumns d TCompany
        in Inr (sort_key name_key
                  (map (company_listing_row companyColumns)
                     (group_by (company_group_key companyColumns) (company_joined d)))))"

definition list_companies :: "db \<Rightarrow> response" where
  "list_companies d =
     (case companies_query d of
        Inl e \<Rightarrow> reply 500 (Msg ''Server error.'')
      | Inr rs \<Rightarrow> reply 200 (Objs rs))"

section \<open>GET /api/forum/posts\<close>

definition post_joined :: "db \<Rightarrow> (jsobj \<times> jsobj \<times> jsobj option) list" where
  "post_joined d =
     concat (map (\<lambda>p.
        concat (map (\<lambda>c. map (\<lambda>j. (p, c, snd j))
                          (left_join c
                             (filter (\<lambda>cm. sql_eq (col cm ''postId'') (col p ''id'')) (rows (comments d)))))
                  (filter (\<lambda>c. sql_eq (col c ''id'') (col p ''authorId'')) (rows (companies d)))))
        (rows (posts d)))"

definition post_group_key :: "string list \<Rightarrow> jsobj \<times> jsobj \<times> jsobj option \<Rightarrow> jsval list" where
  "post_group_key postColumns g =
     (case g of (p, c, cm) \<Rightarrow>
        [col p ''id'', col p ''title'', col p ''createdAt'', col c ''name'', col c ''id''] @
        (if ''content'' \<in> set postColumns then [col p ''content''] else []) @
        (if ''category'' \<in> set postColumns then [col p ''category''] else []))"

definition post_listing_row :: "string list \<Rightarrow> (jsobj \<times> jsobj \<times> jsobj option) list \<Rightarrow> jsobj" where
  "post_listing_row postColumns g =
     (case g of
        [] \<Rightarrow> []
      | (p, c, cm) # rest \<Rightarrow>
          [(''id'', col p ''id''), (''title'', col p ''title''),
           (''content'', if ''content'' \<in> set postColumns then col p ''content'' else col p ''title''),
           (''category'', if ''category'' \<in> set postColumns then col p ''category'' else JNull),
           (''createdAt'', col p ''createdAt''),
           (''company'', col c ''name''), (''companyId'', col c ''id''),
           (''comments'', count_ids (map (\<lambda>j. snd (snd j)) g))])"

definition posts_query :: "db \<Rightarrow> exn + jsobj list" where
  "posts_query d =
     (if \<not> has_cols (posts d) [''id'', ''title'', ''createdAt'', ''authorId''] \<or>
         \<not> has_cols (companies d) [''id'', ''name''] \<or>
         \<not> has_cols (comments d) [''id'', ''postId'']
      then Inl MissingColumn
      else
        let postColumns = getTableColumns d TPost
        in Inr (take 100 (rev (sort_key created_key
                  (map (post_listing_row postColumns)
                     (group_by (post_group_key postColumns) (post_joined d)))))))"

definition list_posts :: "db \<Rightarrow> response" where
  "list_posts d =
     (case posts_query d of
        Inl e \<Rightarrow> reply 500 (Msg ''Server error.'')
      | Inr rs \<Rightarrow> reply 200 (Objs rs))"

section \<open>POST /api/forum/posts\<close>

text \<open>\<open>SELECT "companyId" FROM "User" WHERE id = $1 LIMIT 1\<close>, with the raw \<open>userId\<close>.\<close>

definition user_company_query :: "ext \<Rightarrow> db \<Rightarrow> jsval \<Rightarrow> exn + jsobj list" where
  "user_company_query x d userId =
     (if \<not> has_cols (users d) [''id'', ''companyId''] then Inl MissingColumn
      else case sql_int x userId of
        BErr \<Rightarrow> Inl BadParameter
      | BNull \<Rightarrow> Inr []
      | BInt n \<Rightarrow>
          Inr (take 1 (map (project [''companyId''])
                 (filter (\<lambda>r. is_int n (col r ''id'')) (rows (users d))))))"

text \<open>
  \<open>let resolvedCompanyId = companyId ? Number(companyId) : null\<close>, and when that is falsy
  and \<open>userId\<close> is truthy, \<open>userResult.rows[0]?.companyId ?? null\<close>.
\<close>

definition explicit_company :: "ext \<Rightarrow> jsobj \<Rightarrow> jsval" where
  "explicit_company x b =
     (if truthy (js_get b ''companyId'') then JNum (Number_js x (js_get b ''companyId'')) else JNull)"

definition first_company_of :: "jsobj list \<Rightarrow> jsval" where
  "first_company_of rs =
     (case rs of
        [] \<Rightarrow> JNull
      | r # rest \<Rightarrow> if nullish (js_get r ''companyId'') then JNull else js_get r ''companyId'')"

definition resolveCompanyId :: "ext \<Rightarrow> db \<Rightarrow> jsobj \<Rightarrow> exn + jsval" where
  "resolveCompanyId x d b =
     (if \<not> truthy (explicit_company x b) \<and> truthy (js_get b ''userId'') then
        (case user_company_query x d (js_get b ''userId'') of
           Inl e \<Rightarrow> Inl e
         | Inr rs \<Rightarrow> Inr (first_company_of rs))
      else Inr (explicit_company x b))"

text \<open>\<open>SELECT id[, name] FROM "Company" WHERE id = $1 LIMIT 1\<close>\<close>

definition company_query :: "ext \<Rightarrow> db \<Rightarrow> string list \<Rightarrow> jsval \<Rightarrow> exn + jsobj list" where
  "company_query x d cs v =
     (if \<not> has_cols (companies d) (''id'' # cs) then Inl MissingColumn
      else case sql_int x v of
        BErr \<Rightarrow> Inl BadParameter
      | BNull \<Rightarrow> Inr []
      | BInt n \<Rightarrow>
          Inr (take 1 (map (project cs) (filter (\<lambda>r. is_int n (col r ''id'')) (rows (companies d))))))"






section \<open>POST /api/forum/posts/:id/comments\<close>

text \<open>
  The author of a comment: the company column when the table has one, else the user
  column, else the generic author column, whose value is the user when its foreign key
  references \<open>User\<close> and the company otherwise.
\<close>

definition resolve_author ::
  "ext \<Rightarrow> db \<Rightarrow> string option \<Rightarrow> string option \<Rightarrow> string option \<Rightarrow> jsval \<Rightarrow> jsval \<Rightarrow>
     string option \<times> jsval" where
  "resolve_author x d companyIdColumn userIdColumn authorIdColumn resolvedCompanyId resolvedUserId =
     (case companyIdColumn of
        Some c \<Rightarrow> (Some c, resolvedCompanyId)
      | None \<Rightarrow>
          (case userIdColumn of
             Some c \<Rightarrow> (Some c, resolvedUserId)
           | None \<Rightarrow>
               (case authorIdColumn of
                  Some c \<Rightarrow>
                    (case getForeignKeyTarget d TComment c of
                       Some targetTable \<Rightarrow>
                         if targetTable \<noteq> [] \<and> toLowerCase x targetTable = ''user''
                         then (Some c, resolvedUserId) else (Some c, resolvedCompanyId)
                     | None \<Rightarrow> (Some c, resolvedCompanyId))
                | None \<Rightarrow> (None, JNull))))"

definition comment_author :: "ext \<Rightarrow> db \<Rightarrow> jsval \<Rightarrow> jsval \<Rightarrow> string option \<times> jsval" where
  "comment_author x d resolvedCompanyId resolvedUserId =
     (let commentColumns = getTableColumns d TComment
      in resolve_author x d
           (resolveColumn x commentColumns [''companyId'', ''company_id''])
           (resolveColumn x commentColumns [''userId'', ''user_id''])
           (resolveColumn x commentColumns [''authorId'', ''author_id''])
           resolvedCompanyId resolvedUserId)"

definition resolved_user :: "ext \<Rightarrow> jsobj \<Rightarrow> jsval" where
  "resolved_user x b =
     (if truthy (js_get b ''userId'') then JNum (Number_js x (js_get b ''userId'')) else JNull)"

text \<open>
  The handler from its first line to the lists it builds for the \<open>INSERT\<close> (lines 1119 to
  1187): an answer, or \<open>insertColumns\<close> and \<open>insertValues\<close> as they stand after the
  \<open>createdAt\<close> column was pushed.
\<close>

definition created_stamp :: "ext \<Rightarrow> string option \<Rightarrow> string list \<times> jsval list" where
  "created_stamp x createdAtColumn =
     (case createdAtColumn of None \<Rightarrow> ([], []) | Some c \<Rightarrow> ([c], [JDate (now x)]))"

definition comment_insert ::
  "ext \<Rightarrow> db \<Rightarrow> string \<Rightarrow> jsobj \<Rightarrow> response + string list \<times> jsval list" where
  "comment_insert x d id_param b =
     (let postId = str_to_num x id_param; content = js_get b ''content'' in
      if \<not> truthy (JNum postId) \<or> \<not> truthy content
      then Inl (reply 400 (Msg ''Post and content are required.''))
      else case resolveCompanyId x d b of
        Inl e \<Rightarrow> Inl (reply 500 (Failure e))
      | Inr resolvedCompanyId \<Rightarrow>
          if \<not> truthy resolvedCompanyId
          then Inl (reply 400 (Msg ''Company is required to comment.''))
          else (case company_query x d [''id'', ''name''] resolvedCompanyId of
             Inl e \<Rightarrow> Inl (reply 500 (Failure e))
           | Inr [] \<Rightarrow> Inl (reply 400 (Msg ''Company not found.''))
           | Inr (company # cs) \<Rightarrow>
               (let commentColumns = getTableColumns d TComment;
                    createdAtColumn = resolveColumn x commentColumns [''createdAt'', ''created_at'']
                in case resolveColumn x commentColumns [''postId'', ''post_id''] of
                  None \<Rightarrow> Inl (reply 500 (Msg ''Comment schema is missing post reference.''))
                | Some postIdColumn \<Rightarrow>
                    (case comment_author x d resolvedCompanyId (resolved_user x b) of
                       (None, authorValue) \<Rightarrow>
                         Inl (reply 400 (Msg ''Author is required to comment.''))
                     | (Some authorColumn, authorValue) \<Rightarrow>
                         if \<not> truthy authorValue
                         then Inl (reply 400 (Msg ''Author is required to comment.''))
                         else Inr ([''content'', authorColumn, postIdColumn] @
                                     fst (created_stamp x createdAtColumn),
                                   [content, authorValue, JNum postId] @
                                     snd (created_stamp x createdAtColumn))))))"

text \<open>
  The next statement, \<open>if (updatedAtColumn) ...\<close> of line 1189, reads an identifier that
  nothing binds: this handler declares no variable of that name (the handler that lists
  comments declares one, in its own scope) and the module has no global of that name.
  Reading it raises a \<open>ReferenceError\<close>, which the \<open>catch\<close> block answers with 500. The
  \<open>INSERT\<close> after it is never reached.
\<close>

definition post_comment :: "ext \<Rightarrow> db \<Rightarrow> string \<Rightarrow> jsobj \<Rightarrow> response \<times> db" where
  "post_comment x d id_param b =
     (case comment_insert x d id_param b of
        Inl r \<Rightarrow> (r, d)
      | Inr insert_lists \<Rightarrow> (reply 500 (Failure (ReferenceError ''updatedAtColumn'')), d))"

section \<open>GET /api/messages and POST /api/messages\<close>

definition message_columns :: "string list" where
  "message_columns = [''id'', ''content'', ''createdAt'', ''senderCompanyId'', ''receiverCompanyId'']"

definition message_joined :: "db \<Rightarrow> int \<Rightarrow> (jsobj \<times> jsobj \<times> jsobj) list" where
  "message_joined d n =
     concat (map (\<lambda>m.
        concat (map (\<lambda>cs. map (\<lambda>cr. (m, cs, cr))
                          (filter (\<lambda>cr. sql_eq (col cr ''id'') (col m ''receiverCompanyId''))
                             (rows (companies d))))
                  (filter (\<lambda>cs. sql_eq (col cs ''id'') (col m ''senderCompanyId'')) (rows (companies d)))))
        (filter (names_company n) (rows (messages d))))"

definition message_row :: "jsobj \<times> jsobj \<times> jsobj \<Rightarrow> jsobj" where
  "message_row j =
     (case j of (m, cs, cr) \<Rightarrow>
        project message_columns m @ [(''senderName'', col cs ''name''), (''receiverName'', col cr ''name'')])"

definition messages_query :: "ext \<Rightarrow> db \<Rightarrow> jsnum \<Rightarrow> exn + jsobj list" where
  "messages_query x d companyId =
     (if \<not> has_cols (messages d) message_columns \<or> \<not> has_cols (companies d) [''id'', ''name'']
      then Inl MissingColumn
      else case sql_int x (JNum companyId) of
        BErr \<Rightarrow> Inl BadParameter
      | BNull \<Rightarrow> Inr []
      | BInt n \<Rightarrow> Inr (map message_row (sort_key (\<lambda>j. created_key (fst j)) (message_joined d n))))"

definition list_messages :: "ext \<Rightarrow> db \<Rightarrow> jsval \<Rightarrow> response" where
  "list_messages x d companyId_param =
     (let companyId = Number_js x companyId_param in
      if \<not> truthy (JNum companyId) then reply 400 (Msg ''companyId is required.'')
      else case messages_query x d companyId of
        Inl e \<Rightarrow> reply 500 (Msg ''Server error.'')
      | Inr rs \<Rightarrow> reply 200 (Objs rs))"

text \<open>
  \<open>INSERT INTO "Message" ("senderCompanyId", "receiverCompanyId", content) VALUES ...
  RETURNING id, content, "createdAt", "senderCompanyId", "receiverCompanyId"\<close> on the table
  of \<open>ensureMessagesTable\<close>: a serial primary key, two integer columns that are not NULL and
  reference \<open>"Company"(id)\<close>, a text that is not NULL, and \<open>createdAt\<close> with default \<open>NOW()\<close>.
  The statement raises before it runs when a parameter is not an integer or a column is
  missing; a row that a constraint rejects has taken its value from the sequence all
  the same.
\<close>

definition company_exists :: "db \<Rightarrow> jsval \<Rightarrow> bool" where
  "company_exists d v = (\<exists>c \<in> set (rows (companies d)). sql_eq (col c ''id'') v)"

definition insert_message :: "ext \<Rightarrow> db \<Rightarrow> jsobj \<Rightarrow> (exn + jsobj) \<times> db" where
  "insert_message x d b =
     (if \<not> has_cols (messages d) message_columns then (Inl MissingColumn, d)
      else case bind_int x (js_get b ''senderCompanyId'') of
        Inl e \<Rightarrow> (Inl e, d)
      | Inr sender \<Rightarrow>
          (case bind_int x (js_get b ''receiverCompanyId'') of
             Inl e \<Rightarrow> (Inl e, d)
           | Inr receiver \<Rightarrow>
               (let content = sql_text x (js_get b ''content'');
                    new_id = JNum (NInt (nextval d TMessage));
                    r = [(''id'', new_id), (''content'', content), (''createdAt'', JDate (now x)),
                         (''senderCompanyId'', sender), (''receiverCompanyId'', receiver)];
                    taken = d\<lparr>seq := AList.update TMessage (nextval d TMessage + 1) (seq d)\<rparr>
                in if nullish sender \<or> nullish receiver \<or> nullish content
                   then (Inl ConstraintViolation, taken)
                   else if \<not> company_exists d sender \<or> \<not> company_exists d receiver
                   then (Inl ConstraintViolation, taken)
                   else if \<exists>m \<in> set (rows (messages d)). sql_eq (col m ''id'') new_id
                   then (Inl ConstraintViolation, taken)
                   else (Inr r, taken\<lparr>messages := (messages d)\<lparr>rows := rows (messages d) @ [r]\<rparr>\<rparr>))))"

definition send_message :: "ext \<Rightarrow> db \<Rightarrow> jsobj \<Rightarrow> response \<times> db" where
  "send_message x d b =
     (if \<not> truthy (js_get b ''senderCompanyId'') \<or> \<not> truthy (js_get b ''receiverCompanyId'') \<or>
         \<not> truthy (js_get b ''content'')
      then (reply 400 (Msg ''senderCompanyId, receiverCompanyId and content are required.''), d)
      else case insert_message x d b of
        (Inl e, d') \<Rightarrow> (reply 500 (Msg ''Server error.''), d')
      | (Inr r, d') \<Rightarrow> (reply 200 (Obj r), d'))"

text \<open>The object of an answer, when it is one.\<close>

fun object_of :: "body \<Rightarrow> jsobj" where
  "object_of (Obj r) = r"
| "object_of other = []"

fun objects_of :: "body \<Rightarrow> jsobj list" where
  "objects_of (Objs rs) = rs"
| "objects_of other = []"

section \<open>Notions the theorems are stated with\<close>


text \<open>
  A triple for a computation on a connection: from a state with \<open>P\<close>, a result \<open>a\<close>
  comes with \<open>Q a\<close> and an exception with \<open>E\<close>.
\<close>

definition hoare :: "(conn \<Rightarrow> bool) \<Rightarrow> 'a io \<Rightarrow> ('a \<Rightarrow> conn \<Rightarrow> bool) \<Rightarrow> (conn \<Rightarrow> bool) \<Rightarrow> bool" where
  "hoare P m Q E = (\<forall>c. P c \<longrightarrow> (case m c of (Inl e, c') \<Rightarrow> E c' | (Inr a, c') \<Rightarrow> Q a c'))"

definition in_tx :: "db \<Rightarrow> conn \<Rightarrow> bool" where
  "in_tx d0 c = (tx c \<noteq> None \<and> base c = d0)"

definition in_open :: "(db \<Rightarrow> bool) \<Rightarrow> conn \<Rightarrow> bool" where
  "in_open P c = (tx c \<noteq> None \<and> P (current c))"

text \<open>The row a company create inserts into a database.\<close>

definition inserted_company :: "ext \<Rightarrow> db \<Rightarrow> jsobj \<Rightarrow> string \<Rightarrow> jsobj" where
  "inserted_company x d b name =
     new_row x (companies d) (nextval d TCompany) (company_values x (cols (companies d)) b name)"


text \<open>
  What the deletions of the company delete leave, as functions of the database: the
  guarded statements in the order the handler issues them.
\<close>

definition at_state :: "db \<Rightarrow> db \<Rightarrow> stmt list \<Rightarrow> conn \<Rightarrow> bool" where
  "at_state d0 w t c = (base c = d0 \<and> tx c = Some w \<and> trace c = t)"

definition del_eq :: "tname \<Rightarrow> string option \<Rightarrow> int \<Rightarrow> db \<Rightarrow> db" where
  "del_eq t column n d =
     (case column of None \<Rightarrow> d | Some c \<Rightarrow> delete_where t (\<lambda>r. is_int n (col r c)) d)"

definition del_in :: "string option \<Rightarrow> tname \<Rightarrow> string option \<Rightarrow> int \<Rightarrow> db \<Rightarrow> db" where
  "del_in column t other n d =
     (case column of
        None \<Rightarrow> d
      | Some c \<Rightarrow>
          (case other of
             None \<Rightarrow> d
           | Some k \<Rightarrow>
               delete_where TComment (\<lambda>r. \<exists>i \<in> set (ids_where t k n d). sql_eq (col r c) i) d))"

definition dependents_deleted :: "int \<Rightarrow> resolved \<Rightarrow> db \<Rightarrow> db" where
  "dependents_deleted n rc d =
     del_eq TUser (userCompanyColumn rc) n
       (del_eq TPost (postAuthorColumn rc) n
          (del_in (commentPostColumn rc) TPost (postAuthorColumn rc) n
             (del_in (commentUserColumn rc) TUser (userCompanyColumn rc) n
                (del_eq TComment (commentAuthorColumn rc) n
                   (del_eq TComment (commentCompanyColumn rc) n
                      (delete_where TMessage (names_company n) d))))))"

definition issued_if :: "string option \<Rightarrow> stmt \<Rightarrow> stmt list" where
  "issued_if column s = (case column of None \<Rightarrow> [] | Some c \<Rightarrow> [s])"

definition issued_if2 :: "string option \<Rightarrow> string option \<Rightarrow> stmt \<Rightarrow> stmt list" where
  "issued_if2 column other s =
     (case column of None \<Rightarrow> [] | Some c \<Rightarrow> (case other of None \<Rightarrow> [] | Some k \<Rightarrow> [s]))"

definition dependents_trace :: "resolved \<Rightarrow> stmt list" where
  "dependents_trace rc =
     [Delete TMessage] @
     issued_if (commentCompanyColumn rc) (Delete TComment) @
     issued_if (commentAuthorColumn rc) (Delete TComment) @
     issued_if2 (commentUserColumn rc) (userCompanyColumn rc) (Delete TComment) @
     issued_if2 (commentPostColumn rc) (postAuthorColumn rc) (Delete TComment) @
     issued_if (postAuthorColumn rc) (Delete TPost) @
     issued_if (userCompanyColumn rc) (Delete TUser)"

definition delete_columns :: "ext \<Rightarrow> db \<Rightarrow> resolved" where
  "delete_columns x d =
     resolve_delete_columns x (cols (users d)) (cols (posts d)) (cols (comments d))"

definition company_deleted :: "ext \<Rightarrow> int \<Rightarrow> db \<Rightarrow> db" where
  "company_deleted x n d =
     delete_where TCompany (\<lambda>r. is_int n (col r ''id''))
       (dependents_deleted n (delete_columns x d) d)"

definition delete_trace :: "ext \<Rightarrow> db \<Rightarrow> stmt list" where
  "delete_trace x d =
     [Begin, Columns TUser, Columns TPost, Columns TComment] @ dependents_trace (delete_columns x d) @
     [Delete TCompany, Commit]"

text \<open>
  The place of a table in the dependency order of the invariant: messages, comments,
  posts, users, company.
\<close>

fun dependency_rank :: "tname \<Rightarrow> nat" where
  "dependency_rank TMessage = 0"
| "dependency_rank TComment = 1"
| "dependency_rank TPost = 2"
| "dependency_rank TUser = 3"
| "dependency_rank TCompany = 4"

fun deleted_tables :: "stmt list \<Rightarrow> tname list" where
  "deleted_tables [] = []"
| "deleted_tables (Delete t # ss) = t # deleted_tables ss"
| "deleted_tables (s # ss) = deleted_tables ss"

text \<open>A table whose \<open>id\<close> column is its primary key holds no id twice.\<close>

definition primary_key :: "tbl \<Rightarrow> bool" where
  "primary_key t = distinct (map (\<lambda>r. col r ''id'') (rows t))"

text \<open>
  A post and the company that authored it, the number of its comments, and what it means
  for a listed object to show them.
\<close>

definition authored_by :: "jsobj \<Rightarrow> jsobj \<Rightarrow> bool" where
  "authored_by p c = sql_eq (col c ''id'') (col p ''authorId'')"

definition comment_count :: "db \<Rightarrow> jsobj \<Rightarrow> jsval" where
  "comment_count d p =
     JNum (NInt (int (length (filter
       (\<lambda>cm. sql_eq (col cm ''postId'') (col p ''id'') \<and> \<not> nullish (col cm ''id''))
       (rows (comments d))))))"

definition listed_post :: "db \<Rightarrow> jsobj \<Rightarrow> jsobj \<Rightarrow> jsobj \<Rightarrow> bool" where
  "listed_post d p c r =
     (js_get r ''id'' = col p ''id'' \<and> js_get r ''title'' = col p ''title'' \<and>
      js_get r ''createdAt'' = col p ''createdAt'' \<and>
      js_get r ''company'' = col c ''name'' \<and> js_get r ''companyId'' = col c ''id'' \<and>
      js_get r ''comments'' = comment_count d p)"

text \<open>The comments of a post, as the join of the listing matches them.\<close>

definition post_matches :: "db \<Rightarrow> jsobj \<Rightarrow> jsobj list" where
  "post_matches d p = filter (\<lambda>cm. sql_eq (col cm ''postId'') (col p ''id'')) (rows (comments d))"

text \<open>
  The variants of the Comment table. A column is named like a candidate when the two
  names are equal once lower-cased; the table is company-linked when it has a column
  named like \<open>companyId\<close> or \<open>company_id\<close>, user-linked when it has one named like \<open>userId\<close>
  or \<open>user_id\<close>, and has a generic author when it has one named like \<open>authorId\<close> or
  \<open>author_id\<close>. The generic author references users when the catalogue has a foreign key
  from that column to the table \<open>User\<close> (in any case).
\<close>

definition named_like :: "ext \<Rightarrow> string list \<Rightarrow> string \<Rightarrow> bool" where
  "named_like x candidates k = (\<exists>c \<in> set candidates. toLowerCase x k = toLowerCase x c)"

definition has_column :: "ext \<Rightarrow> tbl \<Rightarrow> string list \<Rightarrow> bool" where
  "has_column x t candidates = (\<exists>k \<in> set (cols t). named_like x candidates k)"

definition company_linked :: "ext \<Rightarrow> db \<Rightarrow> bool" where
  "company_linked x d = has_column x (comments d) [''companyId'', ''company_id'']"

definition user_linked :: "ext \<Rightarrow> db \<Rightarrow> bool" where
  "user_linked x d = has_column x (comments d) [''userId'', ''user_id'']"

definition generic_author :: "ext \<Rightarrow> db \<Rightarrow> bool" where
  "generic_author x d = has_column x (comments d) [''authorId'', ''author_id'']"

definition references_user :: "ext \<Rightarrow> db \<Rightarrow> string \<Rightarrow> bool" where
  "references_user x d k =
     (case map_of (foreign_keys d) (TComment, k) of
        None \<Rightarrow> False
      | Some t \<Rightarrow> t \<noteq> [] \<and> toLowerCase x t = ''user'')"

text \<open>
  The table has no author column at all; and the author of a comment is a user: the
  table is not company-linked and is user-linked, or its generic author columns
  reference users.
\<close>

definition no_author_column :: "ext \<Rightarrow> db \<Rightarrow> bool" where
  "no_author_column x d = (\<not> company_linked x d \<and> \<not> user_linked x d \<and> \<not> generic_author x d)"

definition author_is_user :: "ext \<Rightarrow> db \<Rightarrow> bool" where
  "author_is_user x d =
     (\<not> company_linked x d \<and>
      (user_linked x d \<or>
       (generic_author x d \<and>
        (\<forall>k \<in> set (cols (comments d)).
           named_like x [''authorId'', ''author_id''] k \<longrightarrow> references_user x d k))))"

section \<open>Sample data for the witnesses\<close>

text \<open>
  A stand-in for the library functions, used at concrete inputs only: decimal digits are
  read as a number, and the ``hash'' of a password is the password behind a \<open>#\<close>.
\<close>

definition digit_of :: "char \<Rightarrow> int option" where
  "digit_of c = map_of (zip ''0123456789'' [0, 1, 2, 3, 4, 5, 6, 7, 8, 9]) c"

fun decimal :: "int \<Rightarrow> string \<Rightarrow> int option" where
  "decimal acc [] = Some acc"
| "decimal acc (c # cs) =
     (case digit_of c of None \<Rightarrow> None | Some k \<Rightarrow> decimal (10 * acc + k) cs)"

definition sample_int :: "string \<Rightarrow> int option" where
  "sample_int s = (if s = [] then None else decimal 0 s)"

text \<open>
  On strings of ASCII characters, the only ones the samples hold, lower-casing folds the
  letters A to Z and \<open>trim\<close> strips blanks, tabs and line ends at both ends.
\<close>

definition to_lower_char :: "char \<Rightarrow> char" where
  "to_lower_char c =
     (case map_of (zip ''ABCDEFGHIJKLMNOPQRSTUVWXYZ'' ''abcdefghijklmnopqrstuvwxyz'') c of
        Some l \<Rightarrow> l
      | None \<Rightarrow> c)"

definition ascii_lower :: "string \<Rightarrow> string" where
  "ascii_lower s = map to_lower_char s"

definition is_space :: "char \<Rightarrow> bool" where
  "is_space c = (c \<in> set [CHR '' '', CHR 0x09, CHR 0x0A, CHR 0x0B, CHR 0x0C, CHR 0x0D])"

definition ascii_trim :: "string \<Rightarrow> string" where
  "ascii_trim s = rev (dropWhile is_space (rev (dropWhile is_space s)))"

definition sample_ext :: ext where
  "sample_ext =
     \<lparr>str_to_num = (\<lambda>s. case sample_int s of Some n \<Rightarrow> NInt n | None \<Rightarrow> NNaN),
      str_of = (\<lambda>v. ''?''),
      trim = ascii_trim,
      toLowerCase = ascii_lower,
      pg_lower = ascii_lower,
      bcrypt_compare = (\<lambda>p h. case (p, h) of (JStr a, JStr k) \<Rightarrow> Some (k = CHR ''#'' # a)
                                | _ \<Rightarrow> None),
      bcrypt_hash = (\<lambda>s. CHR ''#'' # s),
      int_in = sample_int,
      int_ok = (\<lambda>n. - 2147483648 \<le> n \<and> n \<le> 2147483647),
      now = 1000\<rparr>"

definition ann :: jsobj where
  "ann = [(''id'', JNum (NInt 1)), (''email'', JStr ''Ann@Acme.io''),
          (''password'', JStr ''#secret''), (''role'', JStr ''COMPANY''),
          (''companyId'', JNum (NInt 3))]"

definition bob :: jsobj where
  "bob = [(''id'', JNum (NInt 2)), (''email'', JStr ''bob@admin.io''),
          (''password'', JStr ''#hunter2''), (''role'', JStr ''admin''),
          (''companyId'', JNull)]"

definition sample_users :: tbl where
  "sample_users =
     \<lparr>cols = [''id'', ''email'', ''password'', ''role'', ''companyId''],
      defaults = [(''id'', Serial)],
      rows = [ann, bob]\<rparr>"

definition acme :: jsobj where
  "acme = [(''id'', JNum (NInt 3)), (''name'', JStr ''Acme''), (''industry'', JStr ''Tools'')]"

definition globex :: jsobj where
  "globex = [(''id'', JNum (NInt 4)), (''name'', JStr ''Globex''), (''industry'', JNull)]"

definition sample_companies :: tbl where
  "sample_companies =
     \<lparr>cols = [''id'', ''name'', ''industry''], defaults = [(''id'', Serial)],
      rows = [acme, globex]\<rparr>"

definition sample_posts :: tbl where
  "sample_posts =
     \<lparr>cols = [''id'', ''title'', ''content'', ''authorId'', ''createdAt''],
      defaults = [(''id'', Serial), (''createdAt'', Now)],
      rows = [[(''id'', JNum (NInt 10)), (''title'', JStr ''Hello''), (''content'', JStr ''First''),
               (''authorId'', JNum (NInt 3)), (''createdAt'', JDate 500)],
              [(''id'', JNum (NInt 11)), (''title'', JStr ''News''), (''content'', JStr ''Second''),
               (''authorId'', JNum (NInt 4)), (''createdAt'', JDate 600)]]\<rparr>"

definition sample_comments :: tbl where
  "sample_comments =
     \<lparr>cols = [''id'', ''content'', ''postId'', ''authorId'', ''createdAt''],
      defaults = [(''id'', Serial), (''createdAt'', Now)],
      rows = [[(''id'', JNum (NInt 20)), (''content'', JStr ''Nice''), (''postId'', JNum (NInt 10)),
               (''authorId'', JNum (NInt 4)), (''createdAt'', JDate 510)],
              [(''id'', JNum (NInt 21)), (''content'', JStr ''Thanks''), (''postId'', JNum (NInt 11)),
               (''authorId'', JNum (NInt 3)), (''createdAt'', JDate 610)],
              [(''id'', JNum (NInt 22)), (''content'', JStr ''Noted''), (''postId'', JNum (NInt 11)),
               (''authorId'', JNum (NInt 4)), (''createdAt'', JDate 620)]]\<rparr>"

definition sample_messages :: tbl where
  "sample_messages =
     \<lparr>cols = [''id'', ''senderCompanyId'', ''receiverCompanyId'', ''content'', ''createdAt''],
      defaults = [(''id'', Serial), (''createdAt'', Now)],
      rows = [[(''id'', JNum (NInt 30)), (''senderCompanyId'', JNum (NInt 3)),
               (''receiverCompanyId'', JNum (NInt 4)), (''content'', JStr ''Ping''),
               (''createdAt'', JDate 700)],
              [(''id'', JNum (NInt 31)), (''senderCompanyId'', JNum (NInt 4)),
               (''receiverCompanyId'', JNum (NInt 4)), (''content'', JStr ''Memo''),
               (''createdAt'', JDate 650)]]\<rparr>"

definition sample_db :: db where
  "sample_db =
     \<lparr>users = sample_users,
      companies = sample_companies,
      posts = sample_posts,
      comments = sample_comments,
      messages = sample_messages,
      enum_types = [(''Role'', [''ADMIN'', ''COMPANY''])],
      foreign_keys = [((TComment, ''authorId''), ''Company'')],
      seq = [(TUser, 100), (TCompany, 100), (TPost, 100), (TComment, 100), (TMessage, 100)]\<rparr>"

definition sample_conn :: conn where
  "sample_conn = \<lparr>base = sample_db, tx = None, trace = []\<rparr>"

definition no_faults :: "nat \<Rightarrow> bool" where
  "no_faults k = False"

definition initech :: jsobj where
  "initech = [(''name'', JStr '' Initech ''), (''industry'', JStr []),
              (''email'', JStr ''joe@initech.io''), (''password'', JStr ''pw'')]"

definition wipe_industry :: jsobj where
  "wipe_industry = [(''industry'', JStr []), (''phone'', JStr ''555'')]"

definition hi_message :: jsobj where
  "hi_message = [(''senderCompanyId'', JNum (NInt 3)), (''receiverCompanyId'', JStr ''4''),
                 (''content'', JStr ''Hi'')]"




text \<open>A database whose Comment table is user-linked, and a comment that names a company only.\<close>

definition user_linked_db :: db where
  "user_linked_db =
     sample_db\<lparr>comments := \<lparr>cols = [''id'', ''content'', ''postId'', ''userId''],
                                defaults = [(''id'', Serial)], rows = []\<rparr>,
               foreign_keys := [((TComment, ''userId''), ''User'')]\<rparr>"

definition comment_by_acme :: jsobj where
  "comment_by_acme = [(''content'', JStr ''Well said''), (''companyId'', JNum (NInt 3))]"

definition comment_by_ann :: jsobj where
  "comment_by_ann = [(''content'', JStr ''Agreed''), (''userId'', JNum (NInt 1))]"

text \<open>A Comment table that has neither a post column nor an author column.\<close>

definition bare_comments_db :: db where
  "bare_comments_db =
     sample_db\<lparr>comments := \<lparr>cols = [''id'', ''content''], defaults = [(''id'', Serial)],
                                rows = []\<rparr>,
               foreign_keys := []\<rparr>"

text \<open>
  A database whose generic author column references \<open>User\<close>, with one comment that Ann, a
  user of Acme, wrote under a post of Globex; and the oracle under which the ninth
  statement of a request raises, which for the delete of Acme is \<open>DELETE FROM "User"\<close>.
\<close>

definition ann_comment :: jsobj where
  "ann_comment = [(''id'', JNum (NInt 23)), (''content'', JStr ''Agreed''),
                  (''postId'', JNum (NInt 11)), (''authorId'', JNum (NInt 1)),
                  (''createdAt'', JDate 630)]"

definition user_authored_db :: db where
  "user_authored_db =
     sample_db\<lparr>comments := sample_comments\<lparr>rows := [ann_comment]\<rparr>,
               foreign_keys := [((TComment, ''authorId''), ''User'')]\<rparr>"




definition zero_company :: jsobj where
  "zero_company = [(''id'', JNum (NInt 0)), (''name'', JStr ''Zero''), (''industry'', JNull)]"

definition zero_db :: db where
  "zero_db = sample_db\<lparr>companies := sample_companies\<lparr>rows := [zero_company, acme, globex]\<rparr>\<rparr>"

definition from_zero :: jsobj where
  "from_zero = [(''senderCompanyId'', JStr ''0''), (''receiverCompanyId'', JNum (NInt 4)),
                (''content'', JStr ''Hello'')]"

definition ann_login :: jsobj where
  "ann_login = [(''email'', JStr ''  ANN@acme.IO ''), (''password'', JStr ''secret''),
                (''role'', JStr ''Company'')]"

definition bob_login :: jsobj where
  "bob_login = [(''email'', JStr ''bob@admin.io''), (''password'', JStr ''hunter2'')]"

section \<open>Properties of the login handler\<close>

lemma map_of_project: "map_of (project cs r) c = (if c \<in> set cs then Some (col r c) else None)"
  by (induction cs) (auto simp: project_def)

lemma js_get_project: "c \<in> set cs \<Longrightarrow> js_get (project cs r) c = col r c"
  by (simp add: js_get_def map_of_project)

lemma login_user_fields:
  "js_get (project login_columns r) ''id'' = col r ''id''"
  "js_get (project login_columns r) ''email'' = col r ''email''"
  "js_get (project login_columns r) ''password'' = col r ''password''"
  "js_get (project login_columns r) ''companyId'' = col r ''companyId''"
  by (simp_all add: js_get_project login_columns_def)

lemma userRole_project: "userRole x (project login_columns r) = stored_role x r"
  by (simp add: userRole_def stored_role_def js_get_project login_columns_def)

text \<open>
  C1, as amended. A request whose email is not a string, or is empty once trimmed and
  lower-cased, or whose password is falsy is answered 400. For any other request, on a
  User table with the five columns the query names: when no row has an email whose
  \<open>LOWER\<close> is the normalised email the answer is 401; for the first row that has, a role
  given as a non-empty string that differs (lower-cased) from the stored role gives 401;
  otherwise a failed hash comparison gives 401 and a successful one gives 200 with the
  token and the record of exactly \<open>id\<close>, \<open>email\<close>, \<open>role\<close> (lower-cased) and \<open>companyId\<close>.
\<close>

theorem login_contract:
  "(normalizedEmail x b = [] \<or> \<not> truthy (js_get b ''password'') \<longrightarrow>
      login x d b = reply 400 (Msg ''Email and password are required.'')) \<and>
   (normalizedEmail x b \<noteq> [] \<and> truthy (js_get b ''password'') \<and> has_cols (users d) login_columns \<longrightarrow>
      (first_user x d (normalizedEmail x b) = None \<longrightarrow> status (login x d b) = 401) \<and>
      (\<forall>r. first_user x d (normalizedEmail x b) = Some r \<longrightarrow>
         (role_rejected x b r \<longrightarrow> status (login x d b) = 401) \<and>
         (\<not> role_rejected x b r \<longrightarrow>
            (bcrypt_compare x (js_get b ''password'') (col r ''password'') = Some False
               \<longrightarrow> status (login x d b) = 401) \<and>
            (bcrypt_compare x (js_get b ''password'') (col r ''password'') = Some True
               \<longrightarrow> login x d b =
                 reply 200 (Session ''dev-session-token''
                   [(''id'', col r ''id''), (''email'', col r ''email''),
                    (''role'', stored_role x r), (''companyId'', col r ''companyId'')])))))"
  by (auto simp: login_def login_query_def reply_def safeUser_def role_mismatch_def
      role_rejected_def userRole_project login_user_fields)

theorem login_contract_witness:
  "has_cols (users sample_db) login_columns \<and>
   normalizedEmail sample_ext ann_login = ''ann@acme.io'' \<and>
   truthy (js_get ann_login ''password'') \<and>
   first_user sample_ext sample_db (normalizedEmail sample_ext ann_login) = Some ann \<and>
   \<not> role_rejected sample_ext ann_login ann \<and>
   bcrypt_compare sample_ext (js_get ann_login ''password'') (col ann ''password'') = Some True \<and>
   login sample_ext sample_db ann_login =
     reply 200 (Session ''dev-session-token''
       [(''id'', JNum (NInt 1)), (''email'', JStr ''Ann@Acme.io''),
        (''role'', JStr ''company''), (''companyId'', JNum (NInt 3))]) \<and>
   normalizedEmail sample_ext [(''email'', JStr ''   ''), (''password'', JStr ''secret'')] = [] \<and>
   login sample_ext sample_db [(''email'', JStr ''   ''), (''password'', JStr ''secret'')] =
     reply 400 (Msg ''Email and password are required.'')"
proof -
  have c: "has_cols (users sample_db) login_columns" by code_simp
  have e: "normalizedEmail sample_ext ann_login = ''ann@acme.io''" by code_simp
  have p: "truthy (js_get ann_login ''password'')" by code_simp
  have u: "first_user sample_ext sample_db (normalizedEmail sample_ext ann_login) = Some ann"
    by code_simp
  have r: "\<not> role_rejected sample_ext ann_login ann" by code_simp
  have h: "bcrypt_compare sample_ext (js_get ann_login ''password'') (col ann ''password'') = Some True"
    by code_simp
  have v: "[(''id'', col ann ''id''), (''email'', col ann ''email''),
      (''role'', stored_role sample_ext ann), (''companyId'', col ann ''companyId'')] =
     [(''id'', JNum (NInt 1)), (''email'', JStr ''Ann@Acme.io''),
      (''role'', JStr ''company''), (''companyId'', JNum (NInt 3))]" by code_simp
  have g: "normalizedEmail sample_ext [(''email'', JStr ''   ''), (''password'', JStr ''secret'')] = []"
    by code_simp
  have A: "login sample_ext sample_db ann_login =
     reply 200 (Session ''dev-session-token''
       [(''id'', JNum (NInt 1)), (''email'', JStr ''Ann@Acme.io''),
        (''role'', JStr ''company''), (''companyId'', JNum (NInt 3))])"
    using login_contract [of sample_ext ann_login sample_db] c e p u r h v by simp
  have B: "login sample_ext sample_db [(''email'', JStr ''   ''), (''password'', JStr ''secret'')] =
     reply 400 (Msg ''Email and password are required.'')"
    using login_contract [of sample_ext "[(''email'', JStr ''   ''), (''password'', JStr ''secret'')]"
        sample_db] g by simp
  from c e p u r h A g B show ?thesis by simp
qed

text \<open>
  The claim as stated fails at the guard: for Ann's account, an empty password does not
  match the stored hash and the role \<open>admin\<close> is not hers, yet the answer is 400, not 401.
\<close>

theorem login_empty_password_counterexample:
  "first_user sample_ext sample_db ''ann@acme.io'' = Some ann \<and>
   bcrypt_compare sample_ext (JStr []) (col ann ''password'') = Some False \<and>
   role_rejected sample_ext [(''role'', JStr ''admin'')] ann \<and>
   status (login sample_ext sample_db
     [(''email'', JStr ''ann@acme.io''), (''password'', JStr []), (''role'', JStr ''admin'')]) = 400"
  by code_simp

lemma login_status_200:
  "status (login x d b) = 200 \<Longrightarrow> \<exists>u. body (login x d b) = Session ''dev-session-token'' u"
  by (auto simp: login_def reply_def split: if_splits sum.splits option.splits bool.splits)

text \<open>
  C9. Any two successful logins carry the same token, the constant
  \<open>dev-session-token\<close>: whatever the users, the databases and the requests are.
\<close>

theorem login_token_constant:
  "status (login x d b) = 200 \<Longrightarrow> status (login x' d' b') = 200 \<Longrightarrow>
   token_of (login x d b) = Some ''dev-session-token'' \<and>
   token_of (login x' d' b') = token_of (login x d b)"
  using login_status_200 [of x d b] login_status_200 [of x' d' b'] by auto

theorem login_token_constant_witness:
  "status (login sample_ext sample_db ann_login) = 200 \<and>
   status (login sample_ext sample_db bob_login) = 200 \<and>
   token_of (login sample_ext sample_db ann_login) = Some ''dev-session-token'' \<and>
   token_of (login sample_ext sample_db bob_login) = token_of (login sample_ext sample_db ann_login)"
proof -
  have a: "status (login sample_ext sample_db ann_login) = 200" by code_simp
  have b: "status (login sample_ext sample_db bob_login) = 200" by code_simp
  from login_token_constant [OF a b] a b show ?thesis by simp
qed

section \<open>Transactions: the invariant of an open transaction\<close>

lemma hoareI: "(\<And>c. P c \<Longrightarrow> case m c of (Inl e, c') \<Rightarrow> E c' | (Inr a, c') \<Rightarrow> Q a c') \<Longrightarrow> hoare P m Q E"
  by (simp add: hoare_def)

lemma hoare_ret: "(\<And>c. P c \<Longrightarrow> Q a c) \<Longrightarrow> hoare P (ret a) Q E"
  by (simp add: hoare_def ret_def)

lemma hoare_bnd:
  "hoare P m R E \<Longrightarrow> (\<And>a. hoare (R a) (f a) Q E) \<Longrightarrow> hoare P (bnd m f) Q E"
  by (fastforce simp: hoare_def bnd_def split: prod.splits sum.splits)

lemma hoare_weaken:
  "hoare P' m Q' E' \<Longrightarrow> (\<And>c. P c \<Longrightarrow> P' c) \<Longrightarrow> (\<And>a c. Q' a c \<Longrightarrow> Q a c) \<Longrightarrow>
   (\<And>c. E' c \<Longrightarrow> E c) \<Longrightarrow> hoare P m Q E"
  by (fastforce simp: hoare_def split: prod.splits sum.splits)

lemma in_tx_issue [simp]: "in_tx d0 (issue s c) = in_tx d0 c"
  by (simp add: in_tx_def issue_def)


















section \<open>Company update and create: what is stored\<close>

lemma hoare_client_query:
  "(\<And>c. P c \<Longrightarrow> E (issue s c)) \<Longrightarrow>
   (\<And>c a d'. P c \<Longrightarrow> sem (current c) = Inr (a, d') \<Longrightarrow> Q a (put_current d' (issue s c))) \<Longrightarrow>
   hoare P (client_query fails s sem) Q E"
  by (auto simp: hoare_def client_query_def split: sum.splits)

lemma hoare_pool_read:
  "(\<And>c. P c \<Longrightarrow> E (issue s c)) \<Longrightarrow> (\<And>c. P c \<Longrightarrow> Q (f (base c)) (issue s c)) \<Longrightarrow>
   hoare P (pool_read fails s f) Q E"
  by (auto simp: hoare_def pool_read_def)

lemma hoare_control:
  "(\<And>c. P c \<Longrightarrow> E (issue s c)) \<Longrightarrow> (\<And>c. P c \<Longrightarrow> Q () (f (issue s c))) \<Longrightarrow>
   hoare P (control fails s f) Q E"
  by (auto simp: hoare_def control_def)

lemma hoare_if:
  "(b \<Longrightarrow> hoare P m Q E) \<Longrightarrow> (\<not> b \<Longrightarrow> hoare P m' Q E) \<Longrightarrow> hoare P (if b then m else m') Q E"
  by simp

lemma map_of_set_cols_other:
  "k \<notin> fst ` set kvs \<Longrightarrow> map_of (set_cols kvs r) k = map_of r k"
  by (induction kvs r rule: set_cols.induct) (auto simp: update_conv')

lemma map_of_set_cols:
  "distinct (map fst kvs) \<Longrightarrow> (k, v) \<in> set kvs \<Longrightarrow> map_of (set_cols kvs r) k = Some v"
  by (induction kvs r rule: set_cols.induct)
     (auto simp: update_conv' map_of_set_cols_other image_iff)

lemma col_set_cols:
  "distinct (map fst kvs) \<Longrightarrow> (k, v) \<in> set kvs \<Longrightarrow> col (set_cols kvs r) k = v"
  by (simp add: col_def map_of_set_cols)

lemma col_set_cols_other:
  "k \<notin> fst ` set kvs \<Longrightarrow> col (set_cols kvs r) k = col r k"
  by (simp add: col_def map_of_set_cols_other)

lemma update_sets_keys: "map fst (update_sets x cs b) = filter (\<lambda>k. k \<in> set cs \<and> hasOwnProperty b k) company_fields"
  by (simp add: update_sets_def comp_def)

lemma distinct_company_fields: "distinct company_fields"
  by (simp add: company_fields_def)

lemma stamp_not_field: "''updatedAt'' \<notin> set company_fields" "''updated_at'' \<notin> set company_fields" "''id'' \<notin> set company_fields"
  by (simp_all add: company_fields_def)

lemma distinct_stamp_update: "distinct (map fst (stamp_update x cs (update_sets x cs b)))"
  using stamp_not_field
  by (auto simp: stamp_update_def update_sets_keys distinct_company_fields)

lemma id_not_set: "''id'' \<notin> fst ` set (stamp_update x cs (update_sets x cs b))"
proof -
  have "fst ` set (stamp_update x cs (update_sets x cs b)) \<subseteq> set company_fields \<union> {''updatedAt'', ''updated_at''}"
    using update_sets_keys [of x cs b]
    by (auto simp: stamp_update_def update_sets_def)
  then show ?thesis using stamp_not_field by auto
qed

lemma hasOwnProperty_js_get: "js_get b k \<noteq> JUndefined \<Longrightarrow> hasOwnProperty b k"
  by (auto simp: js_get_def hasOwnProperty_def split: option.splits dest!: map_of_SomeD intro: rev_image_eqI)

lemma empty_in_sets:
  assumes "k \<in> set company_fields" "k \<in> set cs" "js_get b k = JStr []"
  shows "(k, JNull) \<in> set (stamp_update x cs (update_sets x cs b))"
proof -
  have "hasOwnProperty b k" using assms(3) by (intro hasOwnProperty_js_get) simp
  then have "(k, JNull) \<in> set (update_sets x cs b)"
    using assms by (force simp: update_sets_def normalized_def)
  then show ?thesis by (auto simp: stamp_update_def)
qed

lemma no_fields_no_sets:
  assumes "\<forall>k \<in> set company_fields. hasOwnProperty b k \<longrightarrow> k \<notin> set cs"
  shows "stamp_update x cs (update_sets x cs b) = []"
proof -
  have "filter (\<lambda>k. k \<in> set cs \<and> hasOwnProperty b k) company_fields = []"
    using assms by (auto simp: filter_empty_conv)
  then have "update_sets x cs b = []" by (simp add: update_sets_def)
  then show ?thesis by (simp add: stamp_update_def)
qed

lemma update_no_fields:
  assumes "truthy (JNum (str_to_num x id_param))"
    and "\<forall>k \<in> set company_fields. hasOwnProperty b k \<longrightarrow> k \<notin> set (cols (companies d))"
  shows "update_company x d id_param b = (reply 400 (Msg ''No fields to update.''), d)"
  using assms no_fields_no_sets [of b "cols (companies d)" x]
  by (simp add: update_company_def getTableColumns_def Let_def)

lemma update_stores_null:
  assumes ok: "status (fst (update_company x d id_param b)) = 200"
    and k: "k \<in> set company_fields" "k \<in> set (cols (companies d))" "js_get b k = JStr []"
    and n: "str_to_num x id_param = NInt n"
    and row: "row \<in> set (rows (companies (snd (update_company x d id_param b))))" "is_int n (col row ''id'')"
  shows "col row k = JNull"
proof -
  let ?sets = "stamp_update x (cols (companies d)) (update_sets x (cols (companies d)) b)"
  from ok n have q: "sql_int x (JNum (NInt n)) = BInt n"
    by (auto simp: update_company_def getTableColumns_def Let_def reply_def update_company_query_def
        split: if_splits sum.splits bound.splits list.splits prod.splits)
  from ok n q have d': "rows (companies (snd (update_company x d id_param b))) =
      map (\<lambda>r. if is_int n (col r ''id'') then set_cols ?sets r else r) (rows (companies d))"
    by (auto simp: update_company_def getTableColumns_def Let_def reply_def update_company_query_def
        split: if_splits sum.splits bound.splits list.splits prod.splits)
  from row d' obtain r where r: "r \<in> set (rows (companies d))"
    "row = (if is_int n (col r ''id'') then set_cols ?sets r else r)" by auto
  have "is_int n (col r ''id'')"
  proof (rule ccontr)
    assume "\<not> is_int n (col r ''id'')"
    with r row show False by simp
  qed
  with r have "row = set_cols ?sets r" by simp
  then show ?thesis
    using col_set_cols [OF distinct_stamp_update empty_in_sets [OF k]] by simp
qed

lemma current_issue [simp]: "current (issue s c) = current c"
  by (simp add: current_def issue_def split: option.splits)

lemma tx_issue [simp]: "tx (issue s c) = tx c"
  by (simp add: issue_def)

lemma base_issue [simp]: "base (issue s c) = base c"
  by (simp add: issue_def)

lemma put_current_in_tx:
  "tx c \<noteq> None \<Longrightarrow> current (put_current d c) = d \<and> tx (put_current d c) \<noteq> None \<and>
     base (put_current d c) = base c"
  by (auto simp: put_current_def current_def)

lemma client_query_keeps:
  assumes "\<And>d a d'. P d \<Longrightarrow> sem d = Inr (a, d') \<Longrightarrow> P d'"
  shows "hoare (in_open P) (client_query fails s sem) (\<lambda>a. in_open P) (\<lambda>c. True)"
  by (rule hoare_client_query) (auto simp: in_open_def put_current_in_tx dest: assms)

lemma pool_read_keeps:
  "hoare (in_open P) (pool_read fails s f) (\<lambda>a. in_open P) (\<lambda>c. True)"
  by (rule hoare_pool_read) (auto simp: in_open_def)

lemma table_put_table: "table t (put_table t' tb d) = (if t = t' then tb else table t d)"
  by (cases t; cases t') simp_all

lemma table_seq [simp]: "table t (d\<lparr>seq := s\<rparr>) = table t d"
  by (cases t) simp_all

lemma insert_row_other:
  "insert_row x t vals d = Inr (r, d') \<Longrightarrow> t \<noteq> t' \<Longrightarrow> table t' d' = table t' d"
  by (auto simp: insert_row_def Let_def table_put_table split: if_splits)


lemma insert_user_companies:
  "insert_user x ucs b role company d = Inr (a, d') \<Longrightarrow> companies d' = companies d"
  using insert_row_other [of x TUser _ d a d' TCompany]
  by (auto simp: insert_user_def split: sum.splits)

lemma add_enum_value_companies:
  "add_enum_value tn v d = Inr (a, d') \<Longrightarrow> companies d' = companies d"
  by (auto simp: add_enum_value_def split: if_splits)

lemma existing_user_same: "existing_user x e d = Inr (a, d') \<Longrightarrow> d' = d"
  by (auto simp: existing_user_def split: if_splits)

lemma commit_keeps:
  "status r = 200 \<Longrightarrow> body r = Obj company \<Longrightarrow>
   hoare (in_open (\<lambda>d. companies d = K)) (commit_and_answer fails r)
     (\<lambda>r c. status r = 200 \<longrightarrow> companies (base c) = K \<and> body r = Obj company) (\<lambda>c. True)"
  unfolding commit_and_answer_def
  by (rule hoare_bnd [where R = "\<lambda>u c. companies (base c) = K"])
     (auto intro!: hoare_control hoare_ret simp: commit_tx_def in_open_def)

lemma rollback_not_200:
  "status r \<noteq> 200 \<Longrightarrow>
   hoare P (rollback_and_answer fails r) (\<lambda>r c. status r = 200 \<longrightarrow> Q r c) (\<lambda>c. True)"
  unfolding rollback_and_answer_def
  by (rule hoare_bnd [where R = "\<lambda>u c. True"]) (auto intro!: hoare_control hoare_ret)

lemma client_query_keeps_companies:
  assumes "\<And>d a d'. sem d = Inr (a, d') \<Longrightarrow> companies d' = companies d"
  shows "hoare (in_open (\<lambda>d. companies d = K)) (client_query fails s sem)
     (\<lambda>a. in_open (\<lambda>d. companies d = K)) (\<lambda>c. True)"
  by (rule client_query_keeps) (auto dest: assms)

lemma resolve_role_keeps:
  "hoare (in_open (\<lambda>d. companies d = K)) (resolve_role x fails ev)
     (\<lambda>a. in_open (\<lambda>d. companies d = K)) (\<lambda>c. True)"
  unfolding resolve_role_def
  by (auto intro!: hoare_bnd [where R = "\<lambda>a. in_open (\<lambda>d. companies d = K)"]
      client_query_keeps_companies hoare_ret split: option.splits dest: add_enum_value_companies)

lemma existing_user_companies:
  "existing_user x e d = Inr (a, d') \<Longrightarrow> companies d' = companies d"
  by (auto simp: existing_user_def split: if_splits)

lemma create_user_keeps:
  "hoare (in_open (\<lambda>d. companies d = K)) (create_user x fails b company ucs)
     (\<lambda>r c. status r = 200 \<longrightarrow> companies (base c) = K \<and> body r = Obj company) (\<lambda>c. True)"
  unfolding create_user_def
  apply (rule hoare_bnd [where R = "\<lambda>a. in_open (\<lambda>d. companies d = K)"])
   apply (rule client_query_keeps_companies, simp)
  apply (rule hoare_bnd [where R = "\<lambda>a. in_open (\<lambda>d. companies d = K)"])
   apply (rule resolve_role_keeps)
  subgoal for enumValues role
    apply (cases role)
     apply (simp add: rollback_not_200 reply_def)
    apply simp
    apply (rule hoare_bnd [where R = "\<lambda>a. in_open (\<lambda>d. companies d = K)"])
     apply (rule client_query_keeps_companies, erule existing_user_companies)
    apply (rule hoare_if)
     apply (simp add: rollback_not_200 reply_def)
    apply (rule hoare_bnd [where R = "\<lambda>a. in_open (\<lambda>d. companies d = K)"])
     apply (rule client_query_keeps_companies, erule insert_user_companies)
    apply (rule commit_keeps; simp add: reply_def)
    done
  done

lemma create_company_rest_keeps:
  "hoare (in_open (\<lambda>d. companies d = K)) (create_company_rest x fails b company)
     (\<lambda>r c. status r = 200 \<longrightarrow> companies (base c) = K \<and> body r = Obj company) (\<lambda>c. True)"
  unfolding create_company_rest_def
  by (auto intro!: hoare_bnd [where R = "\<lambda>a. in_open (\<lambda>d. companies d = K)"]
      pool_read_keeps create_user_keeps commit_keeps simp: reply_def)

lemma create_company_steps_row:
  "hoare (\<lambda>c. tx c = Some d0 \<and> base c = d0) (create_company_steps x fails b name)
     (\<lambda>r c. status r = 200 \<longrightarrow>
        companies (base c) =
          (companies d0)\<lparr>rows := rows (companies d0) @ [inserted_company x d0 b name]\<rparr> \<and>
        body r = Obj (inserted_company x d0 b name)) (\<lambda>c. True)"
  unfolding create_company_steps_def
proof (rule hoare_bnd [where R = "\<lambda>cc c. cc = cols (companies d0) \<and> tx c = Some d0"])
  show "hoare (\<lambda>c. tx c = Some d0 \<and> base c = d0)
     (pool_read fails (Columns TCompany) (\<lambda>d. getTableColumns d TCompany))
     (\<lambda>cc c. cc = cols (companies d0) \<and> tx c = Some d0) (\<lambda>c. True)"
    by (rule hoare_pool_read) (auto simp: getTableColumns_def)
next
  fix cc
  let ?K = "(companies d0)\<lparr>rows := rows (companies d0) @ [inserted_company x d0 b name]\<rparr>"
  show "hoare (\<lambda>c. cc = cols (companies d0) \<and> tx c = Some d0)
     (bnd (client_query fails (Insert TCompany) (insert_row x TCompany (company_values x cc b name)))
        (create_company_rest x fails b))
     (\<lambda>r c. status r = 200 \<longrightarrow> companies (base c) = ?K \<and>
        body r = Obj (inserted_company x d0 b name)) (\<lambda>c. True)"
  proof (rule hoare_bnd [where R = "\<lambda>company c. company = inserted_company x d0 b name \<and>
      in_open (\<lambda>d. companies d = ?K) c"])
    show "hoare (\<lambda>c. cc = cols (companies d0) \<and> tx c = Some d0)
       (client_query fails (Insert TCompany) (insert_row x TCompany (company_values x cc b name)))
       (\<lambda>company c. company = inserted_company x d0 b name \<and> in_open (\<lambda>d. companies d = ?K) c)
       (\<lambda>c. True)"
      by (rule hoare_client_query)
         (auto simp: in_open_def put_current_def current_def inserted_company_def insert_row_def
           Let_def split: if_splits)
  next
    fix company
    show "hoare (\<lambda>c. company = inserted_company x d0 b name \<and> in_open (\<lambda>d. companies d = ?K) c)
       (create_company_rest x fails b company)
       (\<lambda>r c. status r = 200 \<longrightarrow> companies (base c) = ?K \<and>
          body r = Obj (inserted_company x d0 b name)) (\<lambda>c. True)"
    proof (cases "company = inserted_company x d0 b name")
      case True
      then show ?thesis
        by (intro hoare_weaken [OF create_company_rest_keeps [where K = ?K]]) auto
    next
      case False
      then show ?thesis by (simp add: hoare_def)
    qed
  qed
qed

lemma map_of_keyed: "map_of (map (\<lambda>k. (k, f k)) ks) k = (if k \<in> set ks then Some (f k) else None)"
  by (induction ks) auto

lemma col_new_row:
  "k \<in> set (cols t) \<Longrightarrow> map_of vals k = Some v \<Longrightarrow> col (new_row x t n vals) k = v"
  by (simp add: col_def new_row_def map_of_keyed)

lemma stamp_insert_keys: "k \<in> set optional_fields \<Longrightarrow> map_of (stamp_insert x cs) k = None"
  by (auto simp: stamp_insert_def optional_fields_def)

lemma company_values_empty:
  assumes "k \<in> set optional_fields" "k \<in> set cs" "js_get b k = JStr []"
  shows "map_of (company_values x cs b name) k = Some JNull"
proof -
  have "k \<noteq> ''name''" using assms(1) by (auto simp: optional_fields_def)
  moreover have "map_of (map (\<lambda>k. (k, sql_text x (normalized (js_get b k))))
       (filter (\<lambda>k. k \<in> set cs \<and> js_get b k \<noteq> JUndefined) optional_fields)) k = Some JNull"
    using assms by (simp add: map_of_keyed normalized_def)
  ultimately show ?thesis
    by (simp add: company_values_def map_add_Some_iff)
qed

lemma inserted_company_empty:
  "k \<in> set optional_fields \<Longrightarrow> k \<in> set (cols (companies d)) \<Longrightarrow> js_get b k = JStr [] \<Longrightarrow>
   col (inserted_company x d b name) k = JNull"
  unfolding inserted_company_def by (rule col_new_row) (simp_all add: company_values_empty)

lemma hoareD:
  "hoare P m Q E \<Longrightarrow> P c \<Longrightarrow> m c = (Inr a, c') \<Longrightarrow> Q a c'"
  by (auto simp: hoare_def)

lemma try_catch_200:
  "try_catch m c = (r, c') \<Longrightarrow> status r = 200 \<Longrightarrow> m c = (Inr r, c')"
  by (auto simp: try_catch_def reply_def split: prod.splits sum.splits)

lemma create_company_body_row:
  "hoare (\<lambda>c. tx c = None \<and> base c = d0) (create_company_body x fails b name)
     (\<lambda>r c. status r = 200 \<longrightarrow>
        companies (base c) =
          (companies d0)\<lparr>rows := rows (companies d0) @ [inserted_company x d0 b name]\<rparr> \<and>
        body r = Obj (inserted_company x d0 b name)) (\<lambda>c. True)"
  unfolding create_company_body_def
  by (rule hoare_bnd [where R = "\<lambda>u c. tx c = Some d0 \<and> base c = d0"])
     (auto intro!: hoare_control create_company_steps_row simp: begin_tx_def)

lemma create_company_200:
  assumes "tx c = None" "status (fst (create_company x fails b c)) = 200"
  shows "\<exists>name. js_get b ''name'' = JStr name \<and> name \<noteq> [] \<and>
     companies (base (snd (create_company x fails b c))) =
       (companies (base c))\<lparr>rows := rows (companies (base c)) @ [inserted_company x (base c) b name]\<rparr> \<and>
     body (fst (create_company x fails b c)) = Obj (inserted_company x (base c) b name)"
proof (cases "js_get b ''name''")
  case (JStr name)
  show ?thesis
  proof (cases "name = []")
    case True
    with JStr assms show ?thesis by (simp add: create_company_def reply_def)
  next
    case False
    obtain r c' where rc: "try_catch (create_company_body x fails b name) c = (r, c')"
      by (cases "try_catch (create_company_body x fails b name) c")
    with JStr False assms have r: "status r = 200" by (simp add: create_company_def)
    from hoareD [OF create_company_body_row [of "base c"] _ try_catch_200 [OF rc r]] assms r
    have "companies (base c') =
       (companies (base c))\<lparr>rows := rows (companies (base c)) @ [inserted_company x (base c) b name]\<rparr> \<and>
        body r = Obj (inserted_company x (base c) b name)" by simp
    with JStr False rc show ?thesis by (simp add: create_company_def)
  qed
qed (use assms in \<open>simp_all add: create_company_def reply_def\<close>)

text \<open>
  C10, as amended. An update with a valid id (a route parameter whose number is truthy)
  whose body has none of the eight updatable keys that is a column of the table is
  answered 400 \<open>No fields to update.\<close> and changes nothing. When an update succeeds,
  every updated row holds NULL in each of the eight fields that has a column and was
  sent as the empty string; when a create succeeds, the inserted row (the one returned)
  holds NULL in each of the seven optional fields that has a column and was sent as the
  empty string.
\<close>

theorem company_empty_fields:
  "(truthy (JNum (str_to_num x id_param)) \<and>
      (\<forall>k \<in> set company_fields. hasOwnProperty b k \<longrightarrow> k \<notin> set (cols (companies d))) \<longrightarrow>
      update_company x d id_param b = (reply 400 (Msg ''No fields to update.''), d)) \<and>
   (\<forall>k n row. status (fst (update_company x d id_param b)) = 200 \<and>
      k \<in> set company_fields \<and> k \<in> set (cols (companies d)) \<and> js_get b k = JStr [] \<and>
      str_to_num x id_param = NInt n \<and>
      row \<in> set (rows (companies (snd (update_company x d id_param b)))) \<and>
      is_int n (col row ''id'') \<longrightarrow> col row k = JNull) \<and>
   (\<forall>k. tx c = None \<and> status (fst (create_company x fails b c)) = 200 \<and>
      k \<in> set optional_fields \<and> k \<in> set (cols (companies (base c))) \<and> js_get b k = JStr [] \<longrightarrow>
      (\<exists>row. rows (companies (base (snd (create_company x fails b c)))) =
                rows (companies (base c)) @ [row] \<and>
             body (fst (create_company x fails b c)) = Obj row \<and> col row k = JNull))"
proof (intro conjI allI impI)
  assume "truthy (JNum (str_to_num x id_param)) \<and>
      (\<forall>k \<in> set company_fields. hasOwnProperty b k \<longrightarrow> k \<notin> set (cols (companies d)))"
  then show "update_company x d id_param b = (reply 400 (Msg ''No fields to update.''), d)"
    using update_no_fields by blast
next
  fix k n row
  assume "status (fst (update_company x d id_param b)) = 200 \<and>
      k \<in> set company_fields \<and> k \<in> set (cols (companies d)) \<and> js_get b k = JStr [] \<and>
      str_to_num x id_param = NInt n \<and>
      row \<in> set (rows (companies (snd (update_company x d id_param b)))) \<and>
      is_int n (col row ''id'')"
  then show "col row k = JNull"
    using update_stores_null by blast
next
  fix k
  assume a: "tx c = None \<and> status (fst (create_company x fails b c)) = 200 \<and>
      k \<in> set optional_fields \<and> k \<in> set (cols (companies (base c))) \<and> js_get b k = JStr []"
  then obtain name where
    "companies (base (snd (create_company x fails b c))) =
       (companies (base c))\<lparr>rows := rows (companies (base c)) @ [inserted_company x (base c) b name]\<rparr>"
    "body (fst (create_company x fails b c)) = Obj (inserted_company x (base c) b name)"
    using create_company_200 [of c x fails b] by blast
  moreover have "col (inserted_company x (base c) b name) k = JNull"
    using a by (simp add: inserted_company_empty)
  ultimately show "\<exists>row. rows (companies (base (snd (create_company x fails b c)))) =
                rows (companies (base c)) @ [row] \<and>
             body (fst (create_company x fails b c)) = Obj row \<and> col row k = JNull"
    by simp
qed

theorem company_empty_fields_witness:
  "update_company sample_ext sample_db ''3'' [(''phone'', JStr ''555'')] =
     (reply 400 (Msg ''No fields to update.''), sample_db) \<and>
   status (fst (update_company sample_ext sample_db ''3'' wipe_industry)) = 200 \<and>
   acme[2 := (''industry'', JNull)] \<in>
     set (rows (companies (snd (update_company sample_ext sample_db ''3'' wipe_industry)))) \<and>
   col (acme[2 := (''industry'', JNull)]) ''industry'' = JNull \<and>
   status (fst (create_company sample_ext no_faults initech sample_conn)) = 200 \<and>
   (\<exists>row. rows (companies (base (snd (create_company sample_ext no_faults initech sample_conn)))) =
      rows (companies (base sample_conn)) @ [row] \<and>
      body (fst (create_company sample_ext no_faults initech sample_conn)) = Obj row \<and>
      col row ''industry'' = JNull)"
proof -
  have 1: "truthy (JNum (str_to_num sample_ext ''3''))" by code_simp
  have 2: "\<forall>k \<in> set company_fields. hasOwnProperty [(''phone'', JStr ''555'')] k \<longrightarrow>
      k \<notin> set (cols (companies sample_db))" by code_simp
  have 3: "status (fst (update_company sample_ext sample_db ''3'' wipe_industry)) = 200" by code_simp
  have 4: "''industry'' \<in> set company_fields \<and> ''industry'' \<in> set (cols (companies sample_db)) \<and>
     js_get wipe_industry ''industry'' = JStr [] \<and> str_to_num sample_ext ''3'' = NInt 3" by code_simp
  have 5: "acme[2 := (''industry'', JNull)] \<in>
     set (rows (companies (snd (update_company sample_ext sample_db ''3'' wipe_industry))))" by code_simp
  have 6: "is_int 3 (col (acme[2 := (''industry'', JNull)]) ''id'')" by code_simp
  have 7: "tx sample_conn = None \<and>
     status (fst (create_company sample_ext no_faults initech sample_conn)) = 200" by code_simp
  have 8: "''industry'' \<in> set optional_fields \<and> ''industry'' \<in> set (cols (companies (base sample_conn))) \<and>
     js_get initech ''industry'' = JStr []" by code_simp
  show ?thesis
    using company_empty_fields [of sample_ext "''3''" "[(''phone'', JStr ''555'')]" sample_db
        sample_conn no_faults]
      company_empty_fields [of sample_ext "''3''" wipe_industry sample_db sample_conn no_faults]
      company_empty_fields [of sample_ext "''3''" initech sample_db sample_conn no_faults]
      1 2 3 4 5 6 7 8
    by blast
qed

text \<open>
  The claim as stated fails at the guards that come first: an update of company \<open>0\<close>
  with an empty body is answered \<open>Invalid company id.\<close>, and a create whose \<open>name\<close> is
  the empty string is answered 400 and stores nothing.
\<close>

theorem update_invalid_id_counterexample:
  "map fst ([] :: jsobj) = [] \<and>
   update_company sample_ext sample_db ''0'' [] = (reply 400 (Msg ''Invalid company id.''), sample_db) \<and>
   js_get [(''name'', JStr [])] ''name'' = JStr [] \<and>
   fst (create_company sample_ext no_faults [(''name'', JStr [])] sample_conn) =
     reply 400 (Msg ''name is required.'') \<and>
   rows (companies (base (snd (create_company sample_ext no_faults [(''name'', JStr [])] sample_conn)))) =
     rows (companies sample_db)"
  by code_simp

section \<open>Company delete: what a successful delete leaves\<close>

lemma at_client_query:
  assumes "\<And>a d'. sem w = Inr (a, d') \<Longrightarrow> a = r \<and> d' = w'"
  shows "hoare (at_state d0 w t) (client_query fails s sem)
     (\<lambda>a c. a = r \<and> at_state d0 w' (t @ [s]) c) (\<lambda>c. True)"
  by (rule hoare_client_query)
     (auto simp: at_state_def current_def put_current_def issue_def dest: assms)

lemma at_pool_read:
  "hoare (at_state d0 w t) (pool_read fails s f)
     (\<lambda>a c. a = f d0 \<and> at_state d0 w (t @ [s]) c) (\<lambda>c. True)"
  by (rule hoare_pool_read) (auto simp: at_state_def issue_def)

lemma at_when_col:
  assumes "\<And>k. column = Some k \<Longrightarrow> hoare (at_state d0 w t) (m k)
      (\<lambda>a. at_state d0 (g k) (t @ [s])) (\<lambda>c. True)"
  shows "hoare (at_state d0 w t) (when_col column m)
     (\<lambda>a. at_state d0 (case column of None \<Rightarrow> w | Some k \<Rightarrow> g k) (t @ issued_if column s))
     (\<lambda>c. True)"
  using assms by (cases column) (auto simp: when_col_def issued_if_def intro!: hoare_ret)

lemma at_when_cols:
  assumes "\<And>k j. column = Some k \<Longrightarrow> other = Some j \<Longrightarrow> hoare (at_state d0 w t) (m k j)
      (\<lambda>a. at_state d0 (g k j) (t @ [s])) (\<lambda>c. True)"
  shows "hoare (at_state d0 w t) (when_cols column other m)
     (\<lambda>a. at_state d0
        (case column of None \<Rightarrow> w | Some k \<Rightarrow> (case other of None \<Rightarrow> w | Some j \<Rightarrow> g k j))
        (t @ issued_if2 column other s))
     (\<lambda>c. True)"
  using assms by (cases column; cases other) (auto simp: when_cols_def issued_if2_def intro!: hoare_ret)

lemma delete_eq_Inr:
  "sql_int x (JNum (NInt n)) = BInt n \<Longrightarrow> delete_eq x t c (NInt n) d = Inr (a, d') \<Longrightarrow>
   d' = delete_where t (\<lambda>r. is_int n (col r c)) d"
  by (auto simp: delete_eq_def split: if_splits)

lemma delete_comments_in_Inr:
  "sql_int x (JNum (NInt n)) = BInt n \<Longrightarrow> delete_comments_in x c t k (NInt n) d = Inr (a, d') \<Longrightarrow>
   d' = delete_where TComment (\<lambda>r. \<exists>i \<in> set (ids_where t k n d). sql_eq (col r c) i) d"
  by (auto simp: delete_comments_in_def split: if_splits)

lemma delete_messages_Inr:
  "sql_int x (JNum (NInt n)) = BInt n \<Longrightarrow> delete_messages x (NInt n) d = Inr (a, d') \<Longrightarrow>
   d' = delete_where TMessage (names_company n) d"
  by (auto simp: delete_messages_def split: if_splits)

lemma at_del_eq:
  assumes "sql_int x (JNum (NInt n)) = BInt n"
  shows "hoare (at_state d0 w t)
     (when_col column (\<lambda>c. client_query fails (Delete tb) (delete_eq x tb c (NInt n))))
     (\<lambda>a. at_state d0 (del_eq tb column n w) (t @ issued_if column (Delete tb))) (\<lambda>c. True)"
  unfolding del_eq_def
  by (rule at_when_col, rule hoare_weaken, rule at_client_query [where r = "()"])
     (auto dest: delete_eq_Inr [OF assms])

lemma at_del_in:
  assumes "sql_int x (JNum (NInt n)) = BInt n"
  shows "hoare (at_state d0 w t)
     (when_cols column other (\<lambda>c k. client_query fails (Delete TComment)
         (delete_comments_in x c tb k (NInt n))))
     (\<lambda>a. at_state d0 (del_in column tb other n w) (t @ issued_if2 column other (Delete TComment)))
     (\<lambda>c. True)"
  unfolding del_in_def
  by (rule at_when_cols, rule hoare_weaken, rule at_client_query [where r = "()"])
     (auto dest: delete_comments_in_Inr [OF assms])

lemma at_delete_messages:
  assumes "sql_int x (JNum (NInt n)) = BInt n"
  shows "hoare (at_state d0 w t) (client_query fails (Delete TMessage) (delete_messages x (NInt n)))
     (\<lambda>a. at_state d0 (delete_where TMessage (names_company n) w) (t @ [Delete TMessage]))
     (\<lambda>c. True)"
  by (rule hoare_weaken, rule at_client_query [where r = "()"])
     (auto dest: delete_messages_Inr [OF assms])

lemma at_delete_dependents:
  assumes "sql_int x (JNum (NInt n)) = BInt n"
  shows "hoare (at_state d0 w t) (delete_dependents x fails (NInt n) rc)
     (\<lambda>a. at_state d0 (dependents_deleted n rc w) (t @ dependents_trace rc)) (\<lambda>c. True)"
  unfolding delete_dependents_def dependents_deleted_def dependents_trace_def append_assoc [symmetric]
  apply (rule hoare_bnd, rule at_delete_messages [OF assms])
  apply (rule hoare_bnd, rule at_del_eq [OF assms])
  apply (rule hoare_bnd, rule at_del_eq [OF assms])
  apply (rule hoare_bnd, rule at_del_in [OF assms])
  apply (rule hoare_bnd, rule at_del_in [OF assms])
  apply (rule hoare_bnd, rule at_del_eq [OF assms])
  apply (rule at_del_eq [OF assms])
  done

lemma delete_company_row_Inr:
  "sql_int x (JNum (NInt n)) = BInt n \<Longrightarrow> delete_company_row x (NInt n) d = Inr (a, d') \<Longrightarrow>
   a = map (project [''id'']) (filter (\<lambda>r. is_int n (col r ''id'')) (rows (companies d))) \<and>
   d' = delete_where TCompany (\<lambda>r. is_int n (col r ''id'')) d"
  by (auto simp: delete_company_row_def split: if_splits)

lemma at_commit:
  "hoare (at_state d0 w t) (commit_and_answer fails r)
     (\<lambda>a c. a = r \<and> base c = w \<and> tx c = None \<and> trace c = t @ [Commit]) (\<lambda>c. True)"
  unfolding commit_and_answer_def
  by (rule hoare_bnd [where R = "\<lambda>a c. base c = w \<and> tx c = None \<and> trace c = t @ [Commit]"])
     (auto intro!: hoare_control hoare_ret simp: at_state_def commit_tx_def issue_def current_def)

lemma hoare_pure: "(A \<Longrightarrow> hoare P m Q E) \<Longrightarrow> hoare (\<lambda>c. A \<and> P c) m Q E"
  by (auto simp: hoare_def)

lemma at_delete_company_row:
  assumes n: "sql_int x (JNum (NInt n)) = BInt n"
  shows "hoare (at_state d0 w t) (client_query fails (Delete TCompany) (delete_company_row x (NInt n)))
     (\<lambda>a c. a = map (project [''id'']) (filter (\<lambda>r. is_int n (col r ''id'')) (rows (companies w))) \<and>
        at_state d0 (delete_where TCompany (\<lambda>r. is_int n (col r ''id'')) w) (t @ [Delete TCompany]) c)
     (\<lambda>c. True)"
  by (rule at_client_query) (auto dest: delete_company_row_Inr [OF n])

lemma at_delete_steps:
  assumes n: "sql_int x (JNum (NInt n)) = BInt n"
  shows "hoare (at_state d0 d0 (t @ [Begin])) (delete_company_steps x fails (NInt n))
     (\<lambda>r c. status r = 200 \<longrightarrow>
        base c = company_deleted x n d0 \<and> tx c = None \<and> trace c = t @ delete_trace x d0 \<and>
        (\<exists>r \<in> set (rows (companies (dependents_deleted n (delete_columns x d0) d0))).
           is_int n (col r ''id''))) (\<lambda>c. True)"
  unfolding delete_company_steps_def
  apply (rule hoare_bnd [OF at_pool_read])
  apply (rule hoare_pure)
  apply (rule hoare_bnd [OF at_pool_read])
  apply (rule hoare_pure)
  apply (rule hoare_bnd [OF at_pool_read])
  apply (rule hoare_pure)
  apply (rule hoare_bnd [OF at_delete_dependents [OF n]])
  apply (rule hoare_bnd [OF at_delete_company_row [OF n]])
  apply (rule hoare_pure)
  apply (rule hoare_if)
   apply (rule rollback_not_200, simp add: reply_def)
  apply (rule hoare_weaken [OF at_commit])
    apply assumption
   apply (auto simp: company_deleted_def delete_trace_def delete_columns_def getTableColumns_def
      filter_empty_conv)
  done

lemma rows_delete_where:
  "rows (table t (delete_where t' P d)) =
     (if t = t' then filter (\<lambda>r. \<not> P r) (rows (table t d)) else rows (table t d))"
  by (simp add: delete_where_def table_put_table)

lemma in_delete_where:
  "r \<in> set (rows (table t (delete_where t' P d))) \<longleftrightarrow>
     r \<in> set (rows (table t d)) \<and> (t = t' \<longrightarrow> \<not> P r)"
  by (auto simp: rows_delete_where)

lemma in_del_eq:
  "r \<in> set (rows (table t (del_eq t' column n d))) \<longleftrightarrow>
     r \<in> set (rows (table t d)) \<and> (\<forall>c. t = t' \<and> column = Some c \<longrightarrow> \<not> is_int n (col r c))"
  by (cases column) (auto simp: del_eq_def in_delete_where)

lemma in_del_in:
  "r \<in> set (rows (table t (del_in column tb other n d))) \<longleftrightarrow>
     r \<in> set (rows (table t d)) \<and>
     (\<forall>c k. t = TComment \<and> column = Some c \<and> other = Some k \<longrightarrow>
        \<not> (\<exists>i \<in> set (ids_where tb k n d). sql_eq (col r c) i))"
  by (cases column; cases other) (auto simp: del_in_def in_delete_where)

lemma ids_where_delete_where:
  "t \<noteq> t' \<Longrightarrow> ids_where t k n (delete_where t' P d) = ids_where t k n d"
  by (simp add: ids_where_def rows_delete_where)

lemma ids_where_del_eq:
  "t \<noteq> t' \<Longrightarrow> ids_where t k n (del_eq t' column m d) = ids_where t k n d"
  by (cases column) (simp_all add: del_eq_def ids_where_delete_where)

lemma ids_where_del_in:
  "t \<noteq> TComment \<Longrightarrow> ids_where t k n (del_in column tb other m d) = ids_where t k n d"
  by (cases column; cases other) (simp_all add: del_in_def ids_where_delete_where)

lemma in_ids_where:
  "i \<in> set (ids_where t k n d) \<longleftrightarrow> (\<exists>u \<in> set (rows (table t d)). is_int n (col u k) \<and> i = col u ''id'')"
  by (auto simp: ids_where_def)

lemma ball_ids_where:
  "(\<forall>i \<in> set (ids_where t k n d). P i) \<longleftrightarrow>
     (\<forall>u \<in> set (rows (table t d)). is_int n (col u k) \<longrightarrow> P (col u ''id''))"
  by (auto simp: ids_where_def)

lemma in_company_deleted:
  "r \<in> set (rows (table t (company_deleted x n d))) \<longleftrightarrow>
     r \<in> set (rows (table t d)) \<and>
     (t = TMessage \<longrightarrow> \<not> names_company n r) \<and>
     (\<forall>c. t = TComment \<and> commentCompanyColumn (delete_columns x d) = Some c \<longrightarrow> \<not> is_int n (col r c)) \<and>
     (\<forall>c. t = TComment \<and> commentAuthorColumn (delete_columns x d) = Some c \<longrightarrow> \<not> is_int n (col r c)) \<and>
     (\<forall>c k. t = TComment \<and> commentUserColumn (delete_columns x d) = Some c \<and>
        userCompanyColumn (delete_columns x d) = Some k \<longrightarrow>
        \<not> (\<exists>u \<in> set (rows (users d)). is_int n (col u k) \<and> sql_eq (col r c) (col u ''id''))) \<and>
     (\<forall>c k. t = TComment \<and> commentPostColumn (delete_columns x d) = Some c \<and>
        postAuthorColumn (delete_columns x d) = Some k \<longrightarrow>
        \<not> (\<exists>p \<in> set (rows (posts d)). is_int n (col p k) \<and> sql_eq (col r c) (col p ''id''))) \<and>
     (\<forall>c. t = TPost \<and> postAuthorColumn (delete_columns x d) = Some c \<longrightarrow> \<not> is_int n (col r c)) \<and>
     (\<forall>c. t = TUser \<and> userCompanyColumn (delete_columns x d) = Some c \<longrightarrow> \<not> is_int n (col r c)) \<and>
     (t = TCompany \<longrightarrow> \<not> is_int n (col r ''id''))"
  unfolding company_deleted_def dependents_deleted_def
  by (simp add: in_delete_where in_del_eq in_del_in ids_where_delete_where ids_where_del_eq
      ids_where_del_in ball_ids_where)

lemma deleted_tables_append: "deleted_tables (xs @ ys) = deleted_tables xs @ deleted_tables ys"
  by (induction xs rule: deleted_tables.induct) simp_all

lemma delete_trace_order:
  "sorted (map dependency_rank (deleted_tables (delete_trace x d))) \<and>
   hd (deleted_tables (delete_trace x d)) = TMessage \<and>
   last (deleted_tables (delete_trace x d)) = TCompany"
  by (simp add: delete_trace_def dependents_trace_def deleted_tables_append issued_if_def
      issued_if2_def sorted_append split: option.splits)

lemma sql_int_JNum: "sql_int x (JNum v) = BInt n \<Longrightarrow> v = NInt n"
  by (cases v) (auto split: if_splits)

lemma sql_int_JNum_cases: "sql_int x (JNum v) = BErr \<or> (\<exists>n. v = NInt n \<and> sql_int x (JNum v) = BInt n)"
  by (cases v) auto

lemma hoare_False: "hoare (\<lambda>c. False) m Q E"
  by (simp add: hoare_def)

lemma delete_dependents_fail:
  assumes "sql_int x (JNum cid) = BErr"
  shows "hoare (\<lambda>c. True) (delete_dependents x fails cid rc) (\<lambda>a c. False) (\<lambda>c. True)"
  unfolding delete_dependents_def
  apply (rule hoare_bnd [where R = "\<lambda>a c. False"])
   apply (rule hoare_client_query, simp)
   apply (simp add: delete_messages_def assms split: if_splits)
  apply (rule hoare_False)
  done

lemma delete_steps_fail:
  assumes "sql_int x (JNum cid) = BErr"
  shows "hoare (\<lambda>c. True) (delete_company_steps x fails cid) (\<lambda>a c. False) (\<lambda>c. True)"
  unfolding delete_company_steps_def
  apply (rule hoare_bnd [where R = "\<lambda>a c. True"], rule hoare_pool_read, simp, simp)
  apply (rule hoare_bnd [where R = "\<lambda>a c. True"], rule hoare_pool_read, simp, simp)
  apply (rule hoare_bnd [where R = "\<lambda>a c. True"], rule hoare_pool_read, simp, simp)
  apply (rule hoare_bnd [where R = "\<lambda>a c. False"], rule delete_dependents_fail [OF assms])
  apply (rule hoare_False)
  done

lemma delete_company_200:
  assumes c: "tx c = None" and run: "delete_company x fails id_param c = (r, c')"
    and ok: "status r = 200"
  shows "\<exists>n. str_to_num x id_param = NInt n \<and> n \<noteq> 0 \<and> sql_int x (JNum (NInt n)) = BInt n \<and>
     base c' = company_deleted x n (base c) \<and> tx c' = None \<and>
     trace c' = trace c @ delete_trace x (base c) \<and>
     (\<exists>r \<in> set (rows (companies (dependents_deleted n (delete_columns x (base c)) (base c)))).
        is_int n (col r ''id''))"
proof -
  let ?cid = "str_to_num x id_param"
  from run ok have t: "truthy (JNum ?cid)"
    by (auto simp: delete_company_def Let_def reply_def split: if_splits)
  with run have "try_catch (delete_company_body x fails ?cid) c = (r, c')"
    by (simp add: delete_company_def Let_def)
  from try_catch_200 [OF this ok]
  have body: "delete_company_body x fails ?cid c = (Inr r, c')" .
  have bg: "hoare (\<lambda>k. k = c) (control fails Begin begin_tx)
      (\<lambda>u. at_state (base c) (base c) (trace c @ [Begin])) (\<lambda>c. True)"
    by (rule hoare_control) (auto simp: at_state_def begin_tx_def issue_def c)
  from sql_int_JNum_cases [of x ?cid] show ?thesis
  proof
    assume bad: "sql_int x (JNum ?cid) = BErr"
    have "hoare (\<lambda>k. k = c) (delete_company_body x fails ?cid) (\<lambda>a c. False) (\<lambda>c. True)"
      unfolding delete_company_body_def
      by (rule hoare_bnd [OF bg]) (rule hoare_weaken [OF delete_steps_fail [OF bad]], simp_all)
    from hoareD [OF this _ body] show ?thesis by simp
  next
    assume "\<exists>n. ?cid = NInt n \<and> sql_int x (JNum ?cid) = BInt n"
    then obtain n where n: "?cid = NInt n" "sql_int x (JNum (NInt n)) = BInt n" by auto
    have "hoare (\<lambda>k. k = c) (delete_company_body x fails (NInt n))
       (\<lambda>r k. status r = 200 \<longrightarrow>
          base k = company_deleted x n (base c) \<and> tx k = None \<and>
          trace k = trace c @ delete_trace x (base c) \<and>
          (\<exists>r \<in> set (rows (companies (dependents_deleted n (delete_columns x (base c)) (base c)))).
             is_int n (col r ''id''))) (\<lambda>c. True)"
      unfolding delete_company_body_def
      by (rule hoare_bnd [OF bg]) (rule at_delete_steps [OF n(2)])
    from hoareD [OF this _ body [unfolded n(1)]] ok t n show ?thesis by simp
  qed
qed

text \<open>
  What a delete that answers 200 for company \<open>n\<close> does remove: no message has \<open>n\<close> as
  sender or receiver; no comment has \<open>n\<close> in the resolved company column or in the
  resolved generic author column, and none has in the resolved user column the id of a
  user that belonged to \<open>n\<close>; no post has \<open>n\<close> in the resolved author column; no user has
  \<open>n\<close> in the resolved company column; no company has id \<open>n\<close>. The \<open>DELETE\<close> statements
  were issued in the order of the dependency ranks, the one on messages first and the
  one on the company row last.
\<close>

lemma delete_company_removes_resolved:
  assumes "tx c = None" and "delete_company x fails id_param c = (r, c')" and "status r = 200"
  shows "\<exists>n. str_to_num x id_param = NInt n \<and>
     (\<forall>m \<in> set (rows (messages (base c'))).
        \<not> is_int n (col m ''senderCompanyId'') \<and> \<not> is_int n (col m ''receiverCompanyId'')) \<and>
     (\<forall>k. commentCompanyColumn (delete_columns x (base c)) = Some k \<or>
           commentAuthorColumn (delete_columns x (base c)) = Some k \<longrightarrow>
        (\<forall>cm \<in> set (rows (comments (base c'))). \<not> is_int n (col cm k))) \<and>
     (\<forall>k j. commentUserColumn (delete_columns x (base c)) = Some k \<and>
             userCompanyColumn (delete_columns x (base c)) = Some j \<longrightarrow>
        (\<forall>cm \<in> set (rows (comments (base c'))). \<forall>u \<in> set (rows (users (base c))).
           is_int n (col u j) \<longrightarrow> \<not> sql_eq (col cm k) (col u ''id''))) \<and>
     (\<forall>k. postAuthorColumn (delete_columns x (base c)) = Some k \<longrightarrow>
        (\<forall>p \<in> set (rows (posts (base c'))). \<not> is_int n (col p k))) \<and>
     (\<forall>k. userCompanyColumn (delete_columns x (base c)) = Some k \<longrightarrow>
        (\<forall>u \<in> set (rows (users (base c'))). \<not> is_int n (col u k))) \<and>
     (\<forall>co \<in> set (rows (companies (base c'))). \<not> is_int n (col co ''id'')) \<and>
     (\<exists>issued. trace c' = trace c @ issued \<and>
        sorted (map dependency_rank (deleted_tables issued)) \<and>
        hd (deleted_tables issued) = TMessage \<and> last (deleted_tables issued) = TCompany)"
proof -
  from delete_company_200 [OF assms] obtain n where n: "str_to_num x id_param = NInt n"
    and b: "base c' = company_deleted x n (base c)"
    and t: "trace c' = trace c @ delete_trace x (base c)" by blast
  have M: "\<not> is_int n (col m ''senderCompanyId'') \<and> \<not> is_int n (col m ''receiverCompanyId'')"
    if "m \<in> set (rows (messages (base c')))" for m
    using that in_company_deleted [of m TMessage x n "base c"] by (simp add: b names_company_def)
  have C: "r \<in> set (rows (comments (base c'))) \<Longrightarrow>
     (\<forall>k. commentCompanyColumn (delete_columns x (base c)) = Some k \<longrightarrow> \<not> is_int n (col r k)) \<and>
     (\<forall>k. commentAuthorColumn (delete_columns x (base c)) = Some k \<longrightarrow> \<not> is_int n (col r k)) \<and>
     (\<forall>k j. commentUserColumn (delete_columns x (base c)) = Some k \<and>
        userCompanyColumn (delete_columns x (base c)) = Some j \<longrightarrow>
        (\<forall>u \<in> set (rows (users (base c))). is_int n (col u j) \<longrightarrow> \<not> sql_eq (col r k) (col u ''id'')))" for r
    using in_company_deleted [of r TComment x n "base c"] by (simp add: b)
  have P: "r \<in> set (rows (posts (base c'))) \<Longrightarrow>
     (\<forall>k. postAuthorColumn (delete_columns x (base c)) = Some k \<longrightarrow> \<not> is_int n (col r k))" for r
    using in_company_deleted [of r TPost x n "base c"] by (simp add: b)
  have U: "r \<in> set (rows (users (base c'))) \<Longrightarrow>
     (\<forall>k. userCompanyColumn (delete_columns x (base c)) = Some k \<longrightarrow> \<not> is_int n (col r k))" for r
    using in_company_deleted [of r TUser x n "base c"] by (simp add: b)
  have Co: "r \<in> set (rows (companies (base c'))) \<Longrightarrow> \<not> is_int n (col r ''id'')" for r
    using in_company_deleted [of r TCompany x n "base c"] by (simp add: b)
  have T: "\<exists>issued. trace c' = trace c @ issued \<and>
        sorted (map dependency_rank (deleted_tables issued)) \<and>
        hd (deleted_tables issued) = TMessage \<and> last (deleted_tables issued) = TCompany"
    using t delete_trace_order [of x "base c"] by blast
  show ?thesis
    using n M C P U Co T by blast
qed


section \<open>Listings: companies, forum posts\<close>

lemma group_by_set:
  "g \<in> set (group_by key xs) \<Longrightarrow>
     g \<noteq> [] \<and> set g \<subseteq> set xs \<and> (\<forall>a \<in> set g. \<forall>b \<in> set g. key a = key b)"
  by (auto simp: group_by_def filter_empty_conv)

lemma group_by_covers: "a \<in> set xs \<Longrightarrow> \<exists>g \<in> set (group_by key xs). a \<in> set g"
  by (auto simp: group_by_def)

lemma left_join_nonempty: "left_join a bs \<noteq> []"
  by (simp add: left_join_def)

lemma fst_left_join: "j \<in> set (left_join a bs) \<Longrightarrow> fst j = a"
  by (auto simp: left_join_def split: if_splits)

lemma company_joined_fst: "j \<in> set (company_joined d) \<Longrightarrow> fst j \<in> set (rows (companies d))"
  by (auto simp: company_joined_def dest: fst_left_join)

lemma company_joined_covers:
  "c \<in> set (rows (companies d)) \<Longrightarrow> \<exists>j \<in> set (company_joined d). fst j = c"
proof -
  assume c: "c \<in> set (rows (companies d))"
  let ?l = "left_join c (filter (\<lambda>u. sql_eq (col u ''companyId'') (col c ''id'')) (rows (users d)))"
  obtain j where j: "j \<in> set ?l" using left_join_nonempty [of c] by (cases ?l) auto
  hence "fst j = c" by (rule fst_left_join)
  moreover have "j \<in> set (company_joined d)" using c j by (auto simp: company_joined_def)
  ultimately show ?thesis by blast
qed

lemma js_get_listing_optional:
  assumes "k \<in> set optional_fields"
  shows "js_get (company_listing_row cc ((c, u) # rest)) k = (if k \<in> set cc then col c k else JNull)"
  using assms by (auto simp: company_listing_row_def js_get_def optional_fields_def)

lemma js_get_listing_id:
  "js_get (company_listing_row cc ((c, u) # rest)) ''id'' = col c ''id''"
  "js_get (company_listing_row cc ((c, u) # rest)) ''name'' = col c ''name''"
  by (simp_all add: company_listing_row_def js_get_def)

lemma company_group_key_eq:
  assumes "company_group_key cc a = company_group_key cc b"
  shows "col (fst a) ''id'' = col (fst b) ''id''" "col (fst a) ''name'' = col (fst b) ''name''"
    "k \<in> set optional_fields \<Longrightarrow> k \<in> set cc \<Longrightarrow> col (fst a) k = col (fst b) k"
  using assms by (auto simp: company_group_key_def present_optional_def)

text \<open>
  C8. Whatever optional columns the Company table has (it has \<open>id\<close> and \<open>name\<close>, and the
  User table \<open>id\<close> and \<open>companyId\<close>, which the query names outright), the listing answers
  200 with rows in which every optional column that the table lacks is \<open>null\<close>; every
  company is listed, with its own value in each optional column the table has.
\<close>

theorem company_listing_absent_columns:
  assumes "has_cols (companies d) [''id'', ''name'']" and "has_cols (users d) [''id'', ''companyId'']"
  shows "\<exists>rs. list_companies d = reply 200 (Objs rs) \<and>
     (\<forall>r \<in> set rs. \<forall>k \<in> set optional_fields. k \<notin> set (cols (companies d)) \<longrightarrow> js_get r k = JNull) \<and>
     (\<forall>c \<in> set (rows (companies d)). \<exists>r \<in> set rs.
         js_get r ''id'' = col c ''id'' \<and> js_get r ''name'' = col c ''name'' \<and>
         (\<forall>k \<in> set optional_fields. k \<in> set (cols (companies d)) \<longrightarrow> js_get r k = col c k))"
proof -
  let ?cc = "cols (companies d)"
  let ?gs = "group_by (company_group_key ?cc) (company_joined d)"
  let ?rs = "sort_key name_key (map (company_listing_row ?cc) ?gs)"
  have run: "list_companies d = reply 200 (Objs ?rs)"
    using assms by (simp add: list_companies_def companies_query_def getTableColumns_def Let_def)
  have nulls: "js_get r k = JNull"
    if "r \<in> set ?rs" "k \<in> set optional_fields" "k \<notin> set ?cc" for r k
  proof -
    from that(1) obtain g where g: "g \<in> set ?gs" and r: "r = company_listing_row ?cc g" by auto
    from group_by_set [OF g] obtain c u rest where "g = (c, u) # rest" by (cases g) auto
    thus ?thesis using that r by (simp add: js_get_listing_optional)
  qed
  have listed: "\<exists>r \<in> set ?rs. js_get r ''id'' = col c ''id'' \<and> js_get r ''name'' = col c ''name'' \<and>
         (\<forall>k \<in> set optional_fields. k \<in> set ?cc \<longrightarrow> js_get r k = col c k)"
    if "c \<in> set (rows (companies d))" for c
  proof -
    from company_joined_covers [OF that] obtain j where j: "j \<in> set (company_joined d)" "fst j = c"
      by blast
    from group_by_covers [OF j(1)] obtain g where g: "g \<in> set ?gs" "j \<in> set g" by blast
    from group_by_set [OF g(1)] obtain c' u rest where shape: "g = (c', u) # rest" by (cases g) auto
    have "company_group_key ?cc (c', u) = company_group_key ?cc j"
      using group_by_set [OF g(1)] g(2) shape by auto
    from company_group_key_eq [OF this] j(2)
    have "col c' ''id'' = col c ''id''" "col c' ''name'' = col c ''name''"
      "\<And>k. k \<in> set optional_fields \<Longrightarrow> k \<in> set ?cc \<Longrightarrow> col c' k = col c k" by auto
    hence "js_get (company_listing_row ?cc g) ''id'' = col c ''id'' \<and>
       js_get (company_listing_row ?cc g) ''name'' = col c ''name'' \<and>
       (\<forall>k \<in> set optional_fields. k \<in> set ?cc \<longrightarrow> js_get (company_listing_row ?cc g) k = col c k)"
      by (simp add: shape js_get_listing_id js_get_listing_optional)
    moreover have "company_listing_row ?cc g \<in> set ?rs" using g(1) by simp
    ultimately show ?thesis by blast
  qed
  show ?thesis using run nulls listed by blast
qed

theorem company_listing_absent_columns_witness:
  "has_cols (companies sample_db) [''id'', ''name''] \<and>
   has_cols (users sample_db) [''id'', ''companyId''] \<and>
   ''location'' \<in> set optional_fields \<and> ''location'' \<notin> set (cols (companies sample_db)) \<and>
   status (list_companies sample_db) = 200 \<and>
   map (\<lambda>r. js_get r ''location'') (objects_of (body (list_companies sample_db))) = [JNull, JNull] \<and>
   map (\<lambda>r. js_get r ''industry'') (objects_of (body (list_companies sample_db))) = [JStr ''Tools'', JNull]"
proof -
  have a: "has_cols (companies sample_db) [''id'', ''name'']" by code_simp
  have b: "has_cols (users sample_db) [''id'', ''companyId'']" by code_simp
  have k: "''location'' \<in> set optional_fields \<and> ''location'' \<notin> set (cols (companies sample_db))"
    by code_simp
  have n: "length (objects_of (body (list_companies sample_db))) = 2" by code_simp
  have i: "map (\<lambda>r. js_get r ''industry'') (objects_of (body (list_companies sample_db))) =
     [JStr ''Tools'', JNull]" by code_simp
  from company_listing_absent_columns [OF a b] k obtain rs where
    rs: "list_companies sample_db = reply 200 (Objs rs)"
    and nulls: "\<forall>r \<in> set rs. js_get r ''location'' = JNull" by blast
  from rs n have "length rs = 2" by (simp add: reply_def)
  then obtain r1 r2 where "rs = [r1, r2]" by (auto simp: length_Suc_conv numeral_2_eq_2)
  with nulls rs have "status (list_companies sample_db) = 200 \<and>
     map (\<lambda>r. js_get r ''location'') (objects_of (body (list_companies sample_db))) = [JNull, JNull]"
    by (simp add: reply_def)
  with a b k i show ?thesis by simp
qed

lemma group_by_filter:
  "g \<in> set (group_by key xs) \<Longrightarrow> a \<in> set g \<Longrightarrow> g = filter (\<lambda>x. key x = key a) xs"
  by (auto simp: group_by_def)

lemma filter_concat_distinct:
  assumes "distinct ps" and "p \<in> set ps" and "\<And>q x. x \<in> set (G q) \<Longrightarrow> f x = q"
  shows "filter (\<lambda>x. f x = p) (concat (map G ps)) = G p"
  using assms(1,2)
proof (induction ps)
  case Nil
  thus ?case by simp
next
  case (Cons q ps)
  have none: "filter (\<lambda>x. f x = p) (G q') = []" if "q' \<noteq> p" for q'
    using that assms(3) by (auto simp: filter_empty_conv)
  have all: "filter (\<lambda>x. f x = p) (G p) = G p"
    using assms(3) by (auto simp: filter_id_conv)
  have rest: "filter (\<lambda>x. f x = p) (concat (map G ps)) = []" if "p \<notin> set ps"
    using that assms(3) by (auto simp: filter_empty_conv)
  show ?case
  proof (cases "q = p")
    case True
    with Cons.prems have "p \<notin> set ps" by simp
    thus ?thesis using True all rest by simp
  next
    case False
    with Cons have "filter (\<lambda>x. f x = p) (concat (map G ps)) = G p" by simp
    thus ?thesis using none [OF False] by simp
  qed
qed

lemma primary_key_inj:
  "primary_key t \<Longrightarrow> a \<in> set (rows t) \<Longrightarrow> b \<in> set (rows t) \<Longrightarrow> col a ''id'' = col b ''id'' \<Longrightarrow> a = b"
  by (auto simp: primary_key_def distinct_map dest: inj_onD)

lemma primary_key_distinct: "primary_key t \<Longrightarrow> distinct (rows t)"
  by (simp add: primary_key_def distinct_map)

lemma post_joined_in:
  "(p, c, cm) \<in> set (post_joined d) \<Longrightarrow>
     p \<in> set (rows (posts d)) \<and> c \<in> set (rows (companies d)) \<and> authored_by p c"
  by (auto simp: post_joined_def authored_by_def dest: fst_left_join)

lemma post_joined_covers:
  assumes "p \<in> set (rows (posts d))" "c \<in> set (rows (companies d))" "authored_by p c"
  shows "\<exists>cm. (p, c, cm) \<in> set (post_joined d)"
proof -
  let ?l = "left_join c (filter (\<lambda>cm. sql_eq (col cm ''postId'') (col p ''id'')) (rows (comments d)))"
  obtain j where j: "j \<in> set ?l" using left_join_nonempty [of c] by (cases ?l) auto
  have "(p, c, snd j) \<in> set (post_joined d)"
    unfolding post_joined_def using assms j by (force simp: authored_by_def)
  thus ?thesis by blast
qed

lemma post_group_key_same:
  "post_group_key pc (p, c, cm) = post_group_key pc (p, c, cm')"
  by (simp add: post_group_key_def)

lemma post_group_key_ids:
  "post_group_key pc (p, c, cm) = post_group_key pc (p', c', cm') \<Longrightarrow>
     col p ''id'' = col p' ''id'' \<and> col c ''id'' = col c' ''id''"
  by (simp add: post_group_key_def)

lemma post_group_shape:
  assumes pk: "primary_key (posts d)" "primary_key (companies d)"
    and j: "(p, c, cm) \<in> set (post_joined d)"
  shows "filter (\<lambda>x. post_group_key pc x = post_group_key pc (p, c, cm)) (post_joined d) =
     map (\<lambda>j. (p, c, snd j)) (left_join c (post_matches d p))"
proof -
  note in_db = post_joined_in [OF j]
  let ?F = "\<lambda>p. filter (\<lambda>c. sql_eq (col c ''id'') (col p ''authorId'')) (rows (companies d))"
  let ?L = "\<lambda>p c. map (\<lambda>j. (p, c, snd j)) (left_join c (post_matches d p))"
  let ?G = "\<lambda>p. concat (map (?L p) (?F p))"
  have joined: "post_joined d = concat (map ?G (rows (posts d)))"
    by (simp add: post_joined_def post_matches_def)
  have same: "(post_group_key pc x = post_group_key pc (p, c, cm)) = (fst x = p \<and> fst (snd x) = c)"
    if "x \<in> set (post_joined d)" for x
  proof -
    obtain p' c' cm' where x: "x = (p', c', cm')" by (cases x) auto
    from post_joined_in [OF that [unfolded x]] have in': "p' \<in> set (rows (posts d))"
      "c' \<in> set (rows (companies d))" by auto
    show ?thesis
    proof
      assume "post_group_key pc x = post_group_key pc (p, c, cm)"
      from post_group_key_ids [OF this [unfolded x]]
      have "p' = p" "c' = c"
        using primary_key_inj [OF pk(1) in'(1)] primary_key_inj [OF pk(2) in'(2)] in_db by auto
      thus "fst x = p \<and> fst (snd x) = c" by (simp add: x)
    next
      assume "fst x = p \<and> fst (snd x) = c"
      thus "post_group_key pc x = post_group_key pc (p, c, cm)"
        by (simp add: x post_group_key_def)
    qed
  qed
  have "filter (\<lambda>x. post_group_key pc x = post_group_key pc (p, c, cm)) (post_joined d) =
     filter (\<lambda>x. fst x = p \<and> fst (snd x) = c) (post_joined d)"
    using same by (auto intro: filter_cong)
  also have "\<dots> = filter (\<lambda>x. fst (snd x) = c) (filter (\<lambda>x. fst x = p) (post_joined d))"
    by (simp add: conj_commute)
  also have "filter (\<lambda>x. fst x = p) (post_joined d) = ?G p"
    unfolding joined
    by (rule filter_concat_distinct [OF primary_key_distinct [OF pk(1)]])
       (use in_db in auto)
  also have "filter (\<lambda>x. fst (snd x) = c) (?G p) = ?L p c"
    by (rule filter_concat_distinct)
       (use in_db primary_key_distinct [OF pk(2)] in \<open>auto simp: authored_by_def\<close>)
  finally show ?thesis .
qed

lemma count_ids_left_join:
  "count_ids (map snd (left_join c cms)) =
     JNum (NInt (int (length (filter (\<lambda>cm. \<not> nullish (col cm ''id'')) cms))))"
  by (simp add: count_ids_def left_join_def comp_def filter_map)

lemma count_ids_group:
  "count_ids (map (\<lambda>j. snd (snd j)) (map (\<lambda>j. (p, c, snd j)) (left_join c (post_matches d p)))) =
     comment_count d p"
  using count_ids_left_join [of c "post_matches d p"]
  by (simp add: comp_def comment_count_def post_matches_def conj_commute)

lemma js_get_post_listing_row:
  "js_get (post_listing_row pc ((p, c, cm) # rest)) ''id'' = col p ''id''"
  "js_get (post_listing_row pc ((p, c, cm) # rest)) ''title'' = col p ''title''"
  "js_get (post_listing_row pc ((p, c, cm) # rest)) ''createdAt'' = col p ''createdAt''"
  "js_get (post_listing_row pc ((p, c, cm) # rest)) ''company'' = col c ''name''"
  "js_get (post_listing_row pc ((p, c, cm) # rest)) ''companyId'' = col c ''id''"
  "js_get (post_listing_row pc g) ''comments'' =
     (if g = [] then JUndefined else count_ids (map (\<lambda>j. snd (snd j)) g))"
  by (simp_all add: post_listing_row_def js_get_def split: list.splits)

lemma post_group_listed:
  assumes pk: "primary_key (posts d)" "primary_key (companies d)"
    and g: "g \<in> set (group_by (post_group_key pc) (post_joined d))"
    and j: "(p, c, cm) \<in> set g"
  shows "listed_post d p c (post_listing_row pc g)"
proof -
  from group_by_set [OF g] j have jd: "(p, c, cm) \<in> set (post_joined d)" by auto
  from group_by_filter [OF g j] post_group_shape [OF pk jd]
  have shape: "g = map (\<lambda>j. (p, c, snd j)) (left_join c (post_matches d p))" by simp
  obtain a rest where l: "left_join c (post_matches d p) = a # rest"
    using left_join_nonempty [of c "post_matches d p"] by (cases "left_join c (post_matches d p)") auto
  have cnt: "js_get (post_listing_row pc g) ''comments'' = comment_count d p"
    using count_ids_group [of p c d] l by (simp add: js_get_post_listing_row(6) shape)
  have "g = (p, c, snd a) # map (\<lambda>j. (p, c, snd j)) rest" by (simp add: shape l)
  thus ?thesis using cnt by (simp add: listed_post_def js_get_post_listing_row(1-5))
qed

lemma distinct_group_by: "distinct (group_by key xs)"
  unfolding group_by_def
proof (subst distinct_map, intro conjI inj_onI)
  show "distinct (remdups (map key xs))" by simp
next
  fix k k'
  assume k: "k \<in> set (remdups (map key xs))"
    and eq: "filter (\<lambda>x. key x = k) xs = filter (\<lambda>x. key x = k') xs"
  from k obtain a where a: "a \<in> set xs" "key a = k" by auto
  hence "a \<in> set (filter (\<lambda>x. key x = k) xs)" by simp
  with eq have "a \<in> set (filter (\<lambda>x. key x = k') xs)" by simp
  with a show "k = k'" by simp
qed

lemma post_group_ids_inj:
  assumes pk: "primary_key (posts d)" "primary_key (companies d)"
  shows "inj_on (\<lambda>g. js_get (post_listing_row pc g) ''id'')
           (set (group_by (post_group_key pc) (post_joined d)))"
proof (rule inj_onI)
  fix g h
  assume g: "g \<in> set (group_by (post_group_key pc) (post_joined d))"
    and h: "h \<in> set (group_by (post_group_key pc) (post_joined d))"
    and eq: "js_get (post_listing_row pc g) ''id'' = js_get (post_listing_row pc h) ''id''"
  from group_by_set [OF g] obtain p c cm where j: "(p, c, cm) \<in> set g" by (cases g) auto
  from group_by_set [OF h] obtain p' c' cm' where j': "(p', c', cm') \<in> set h" by (cases h) auto
  from group_by_set [OF g] j have jd: "(p, c, cm) \<in> set (post_joined d)" by auto
  from group_by_set [OF h] j' have jd': "(p', c', cm') \<in> set (post_joined d)" by auto
  note in_db = post_joined_in [OF jd] post_joined_in [OF jd']
  from post_group_listed [OF pk g j] post_group_listed [OF pk h j'] eq
  have "col p ''id'' = col p' ''id''" by (simp add: listed_post_def)
  with primary_key_inj [OF pk(1)] in_db have p: "p = p'" by blast
  with in_db have "col c ''id'' = col c' ''id''" by (auto simp: authored_by_def sql_eq_def)
  with primary_key_inj [OF pk(2)] in_db have "c = c'" by blast
  with p have "post_group_key pc (p, c, cm) = post_group_key pc (p', c', cm')"
    by (simp add: post_group_key_def)
  with group_by_filter [OF g j] group_by_filter [OF h j'] show "g = h" by simp
qed

text \<open>
  C7. With the columns the query names in place and \<open>id\<close> the primary key of posts and of
  companies, the listing answers 200 with the first 100 objects of a list that is in
  descending order of creation time, shows no post id twice, holds only posts joined with
  the company that authored them and with the number of their comments, and holds every
  post that has such a company.
\<close>

theorem list_posts_joined_counted_ordered:
  assumes "has_cols (posts d) [''id'', ''title'', ''createdAt'', ''authorId'']"
    and "has_cols (companies d) [''id'', ''name'']"
    and "has_cols (comments d) [''id'', ''postId'']"
    and pk: "primary_key (posts d)" "primary_key (companies d)"
  shows "\<exists>every rs. list_posts d = reply 200 (Objs rs) \<and> rs = take 100 every \<and> length rs \<le> 100 \<and>
     sorted (rev (map created_key every)) \<and>
     distinct (map (\<lambda>r. js_get r ''id'') every) \<and>
     (\<forall>r \<in> set every. \<exists>p \<in> set (rows (posts d)). \<exists>c \<in> set (rows (companies d)).
        authored_by p c \<and> listed_post d p c r) \<and>
     (\<forall>p \<in> set (rows (posts d)). \<forall>c \<in> set (rows (companies d)).
        authored_by p c \<longrightarrow> (\<exists>r \<in> set every. listed_post d p c r))"
proof -
  let ?pc = "cols (posts d)"
  let ?gs = "group_by (post_group_key ?pc) (post_joined d)"
  let ?all = "rev (sort_key created_key (map (post_listing_row ?pc) ?gs))"
  have run: "list_posts d = reply 200 (Objs (take 100 ?all))"
    using assms(1-3) by (simp add: list_posts_def posts_query_def getTableColumns_def Let_def)
  have ord: "sorted (rev (map created_key ?all))"
    by (simp add: rev_map [symmetric])
  have sound: "\<exists>p \<in> set (rows (posts d)). \<exists>c \<in> set (rows (companies d)).
        authored_by p c \<and> listed_post d p c r" if "r \<in> set ?all" for r
  proof -
    from that obtain g where g: "g \<in> set ?gs" and r: "r = post_listing_row ?pc g" by auto
    from group_by_set [OF g] obtain p c cm where j: "(p, c, cm) \<in> set g" by (cases g) auto
    with group_by_set [OF g] have "(p, c, cm) \<in> set (post_joined d)" by auto
    from post_joined_in [OF this] post_group_listed [OF pk g j] r show ?thesis by blast
  qed
  have complete: "\<exists>r \<in> set ?all. listed_post d p c r"
    if "p \<in> set (rows (posts d))" "c \<in> set (rows (companies d))" "authored_by p c" for p c
  proof -
    from post_joined_covers [OF that] obtain cm where "(p, c, cm) \<in> set (post_joined d)" by blast
    from group_by_covers [OF this] obtain g where g: "g \<in> set ?gs" "(p, c, cm) \<in> set g" by blast
    from post_group_listed [OF pk g] have "listed_post d p c (post_listing_row ?pc g)" .
    moreover have "post_listing_row ?pc g \<in> set ?all" using g(1) by simp
    ultimately show ?thesis by blast
  qed
  have once: "distinct (map (\<lambda>r. js_get r ''id'') ?all)"
    using post_group_ids_inj [OF pk, of ?pc] distinct_group_by [of "post_group_key ?pc" "post_joined d"]
    by (simp add: distinct_map comp_def inj_on_def) blast
  have "length (take 100 ?all) \<le> 100" by simp
  with run ord once sound complete show ?thesis by blast
qed

theorem list_posts_joined_counted_ordered_witness:
  "has_cols (posts sample_db) [''id'', ''title'', ''createdAt'', ''authorId''] \<and>
   has_cols (companies sample_db) [''id'', ''name''] \<and>
   has_cols (comments sample_db) [''id'', ''postId''] \<and>
   primary_key (posts sample_db) \<and> primary_key (companies sample_db) \<and>
   acme \<in> set (rows (companies sample_db)) \<and>
   authored_by (hd (rows (posts sample_db))) acme \<and>
   status (list_posts sample_db) = 200 \<and>
   map (\<lambda>r. (js_get r ''id'', js_get r ''company'', js_get r ''comments''))
     (objects_of (body (list_posts sample_db))) =
     [(JNum (NInt 11), JStr ''Globex'', JNum (NInt 2)), (JNum (NInt 10), JStr ''Acme'', JNum (NInt 1))] \<and>
   sorted (rev (map created_key (objects_of (body (list_posts sample_db))))) \<and>
   (\<exists>r \<in> set (objects_of (body (list_posts sample_db))).
      listed_post sample_db (hd (rows (posts sample_db))) acme r)"
proof -
  let ?p = "hd (rows (posts sample_db))"
  have a: "has_cols (posts sample_db) [''id'', ''title'', ''createdAt'', ''authorId'']" by code_simp
  have b: "has_cols (companies sample_db) [''id'', ''name'']" by code_simp
  have c: "has_cols (comments sample_db) [''id'', ''postId'']" by code_simp
  have pk: "primary_key (posts sample_db)" "primary_key (companies sample_db)" by code_simp+
  have p: "?p \<in> set (rows (posts sample_db))" by code_simp
  have co: "acme \<in> set (rows (companies sample_db))" by code_simp
  have au: "authored_by ?p acme" by code_simp
  have st: "status (list_posts sample_db) = 200" by code_simp
  have n: "length (objects_of (body (list_posts sample_db))) = 2" by code_simp
  have l: "map (\<lambda>r. (js_get r ''id'', js_get r ''company'', js_get r ''comments''))
     (objects_of (body (list_posts sample_db))) =
     [(JNum (NInt 11), JStr ''Globex'', JNum (NInt 2)), (JNum (NInt 10), JStr ''Acme'', JNum (NInt 1))]"
    by code_simp
  from list_posts_joined_counted_ordered [OF a b c pk] obtain every rs where
    run: "list_posts sample_db = reply 200 (Objs rs)" and rs: "rs = take 100 every"
    and ord: "sorted (rev (map created_key every))"
    and complete: "\<forall>p \<in> set (rows (posts sample_db)). \<forall>c \<in> set (rows (companies sample_db)).
        authored_by p c \<longrightarrow> (\<exists>r \<in> set every. listed_post sample_db p c r)" by blast
  from run have o: "objects_of (body (list_posts sample_db)) = rs" by (simp add: reply_def)
  with n rs have "length (take 100 every) = 2" by simp
  hence "length every = 2" by (simp add: min_def split: if_splits)
  with rs have "rs = every" by simp
  with o ord complete p co au
  have "sorted (rev (map created_key (objects_of (body (list_posts sample_db))))) \<and>
     (\<exists>r \<in> set (objects_of (body (list_posts sample_db))). listed_post sample_db ?p acme r)"
    by simp
  with a b c pk co au st l show ?thesis by simp
qed

section \<open>Messages: a sent message is listed\<close>

lemma message_row_fields:
  "js_get (message_row j) ''id'' = col (fst j) ''id''"
  "js_get (message_row j) ''content'' = col (fst j) ''content''"
  "js_get (message_row j) ''senderCompanyId'' = col (fst j) ''senderCompanyId''"
  "js_get (message_row j) ''receiverCompanyId'' = col (fst j) ''receiverCompanyId''"
  "created_key (message_row j) = created_key (fst j)"
  by (cases j; simp add: message_row_def message_columns_def project_def js_get_def col_def created_key_def)+

lemma at_most_one_key:
  "distinct (map f xs) \<Longrightarrow> length (filter (\<lambda>x. f x = v) xs) \<le> 1"
  by (induction xs) (auto simp: filter_empty_conv image_iff)

lemma one_company:
  assumes "primary_key (companies d)" and "company_exists d v"
  shows "length (filter (\<lambda>c. sql_eq (col c ''id'') v) (rows (companies d))) = 1"
proof -
  let ?l = "filter (\<lambda>c. sql_eq (col c ''id'') v) (rows (companies d))"
  from assms(2) have "?l \<noteq> []" by (auto simp: company_exists_def filter_empty_conv)
  hence lo: "1 \<le> length ?l" by (cases ?l) auto
  have "?l = filter (\<lambda>c. \<not> nullish v) (filter (\<lambda>c. col c ''id'' = v) (rows (companies d)))"
    by (auto simp: sql_eq_def intro: filter_cong)
  hence "length ?l \<le> length (filter (\<lambda>c. col c ''id'' = v) (rows (companies d)))"
    by (metis length_filter_le)
  also have "\<dots> \<le> 1" using assms(1) unfolding primary_key_def by (rule at_most_one_key)
  finally show ?thesis using lo by simp
qed

lemma length_concat_one:
  "length xs = 1 \<Longrightarrow> (\<And>x. x \<in> set xs \<Longrightarrow> length (F x) = 1) \<Longrightarrow> length (concat (map F xs)) = 1"
  by (cases xs) auto

lemma sql_int_ok: "sql_int x v = BInt n \<Longrightarrow> int_ok x n"
  by (cases "(x, v)" rule: sql_int.cases) (auto split: if_splits option.splits)

lemma bind_int_truthy:
  "bind_int x v = Inr a \<Longrightarrow> truthy v \<Longrightarrow> \<exists>n. sql_int x v = BInt n \<and> a = JNum (NInt n)"
proof -
  assume a: "bind_int x v = Inr a" and t: "truthy v"
  have "sql_int x v \<noteq> BNull"
    using t by (cases "(x, v)" rule: sql_int.cases) (auto split: option.splits)
  with a show ?thesis by (cases "sql_int x v") (auto simp: bind_int_def)
qed

lemma send_message_200:
  assumes "send_message x d b = (r, d')" and "status r = 200"
  shows "\<exists>k a c. sql_int x (js_get b ''senderCompanyId'') = BInt a \<and>
     sql_int x (js_get b ''receiverCompanyId'') = BInt c \<and>
     r = reply 200 (Obj [(''id'', JNum (NInt k)), (''content'', sql_text x (js_get b ''content'')),
            (''createdAt'', JDate (now x)), (''senderCompanyId'', JNum (NInt a)),
            (''receiverCompanyId'', JNum (NInt c))]) \<and>
     company_exists d (JNum (NInt a)) \<and> company_exists d (JNum (NInt c)) \<and>
     (\<forall>m \<in> set (rows (messages d)). col m ''id'' \<noteq> JNum (NInt k)) \<and>
     rows (messages d') = rows (messages d) @
        [[(''id'', JNum (NInt k)), (''content'', sql_text x (js_get b ''content'')),
            (''createdAt'', JDate (now x)), (''senderCompanyId'', JNum (NInt a)),
            (''receiverCompanyId'', JNum (NInt c))]] \<and>
     has_cols (messages d') message_columns \<and> companies d' = companies d"
proof -
  from assms have t: "truthy (js_get b ''senderCompanyId'')" "truthy (js_get b ''receiverCompanyId'')"
    by (auto simp: send_message_def reply_def split: if_splits)
  from assms obtain s rc where s: "bind_int x (js_get b ''senderCompanyId'') = Inr s"
    and rc: "bind_int x (js_get b ''receiverCompanyId'') = Inr rc"
    by (auto simp: send_message_def insert_message_def reply_def Let_def
             split: if_splits sum.splits prod.splits)
  from bind_int_truthy [OF s t(1)] bind_int_truthy [OF rc t(2)] obtain a c where
    ac: "sql_int x (js_get b ''senderCompanyId'') = BInt a" "s = JNum (NInt a)"
        "sql_int x (js_get b ''receiverCompanyId'') = BInt c" "rc = JNum (NInt c)" by blast
  from assms s rc ac show ?thesis
    by (auto simp: send_message_def insert_message_def reply_def Let_def sql_eq_def has_cols_def
             split: if_splits sum.splits prod.splits)
qed

lemma message_joined_snoc:
  assumes "companies d' = companies d" and "rows (messages d') = rows (messages d) @ [m]"
    and "names_company n m"
  shows "message_joined d' n = message_joined d n @
     concat (map (\<lambda>cs. map (\<lambda>cr. (m, cs, cr))
                     (filter (\<lambda>cr. sql_eq (col cr ''id'') (col m ''receiverCompanyId'')) (rows (companies d))))
       (filter (\<lambda>cs. sql_eq (col cs ''id'') (col m ''senderCompanyId'')) (rows (companies d))))"
  using assms by (simp add: message_joined_def)

lemma message_joined_fst:
  "j \<in> set (message_joined d n) \<Longrightarrow> fst j \<in> set (rows (messages d))"
  by (auto simp: message_joined_def)

text \<open>
  C5, as amended. On a database whose Company table has \<open>id\<close> as its key and a \<open>name\<close>:
  after a send that answers 200, the sender and the receiver of the request are integers
  \<open>a\<close> and \<open>c\<close>, and a listing asked for either of them by a number other than 0 answers 200
  with a list that is in ascending order of creation time and holds exactly one message
  with the id of the answer; that message has sender \<open>a\<close>, receiver \<open>c\<close> and the content of
  the request.
\<close>

theorem sent_message_listed_once:
  assumes sent: "send_message x d b = (r, d')" "status r = 200"
    and cols: "has_cols (companies d) [''id'', ''name'']"
    and pk: "primary_key (companies d)"
  shows "\<exists>a c. sql_int x (js_get b ''senderCompanyId'') = BInt a \<and>
     sql_int x (js_get b ''receiverCompanyId'') = BInt c \<and>
     (\<forall>q n. Number_js x q = NInt n \<and> n \<noteq> 0 \<and> (n = a \<or> n = c) \<longrightarrow>
        (\<exists>ms m. list_messages x d' q = reply 200 (Objs ms) \<and>
           filter (\<lambda>l. js_get l ''id'' = js_get (object_of (body r)) ''id'') ms = [m] \<and>
           js_get m ''senderCompanyId'' = JNum (NInt a) \<and>
           js_get m ''receiverCompanyId'' = JNum (NInt c) \<and>
           js_get m ''content'' = sql_text x (js_get b ''content'') \<and>
           sorted (map created_key ms)))"
proof -
  from send_message_200 [OF sent] obtain k a c where
    a: "sql_int x (js_get b ''senderCompanyId'') = BInt a"
    and c: "sql_int x (js_get b ''receiverCompanyId'') = BInt c"
    and r: "r = reply 200 (Obj [(''id'', JNum (NInt k)), (''content'', sql_text x (js_get b ''content'')),
            (''createdAt'', JDate (now x)), (''senderCompanyId'', JNum (NInt a)),
            (''receiverCompanyId'', JNum (NInt c))])"
    and ex: "company_exists d (JNum (NInt a))" "company_exists d (JNum (NInt c))"
    and fresh: "\<forall>m \<in> set (rows (messages d)). col m ''id'' \<noteq> JNum (NInt k)"
    and rows': "rows (messages d') = rows (messages d) @
        [[(''id'', JNum (NInt k)), (''content'', sql_text x (js_get b ''content'')),
            (''createdAt'', JDate (now x)), (''senderCompanyId'', JNum (NInt a)),
            (''receiverCompanyId'', JNum (NInt c))]]"
    and same: "has_cols (messages d') message_columns" "companies d' = companies d"
    by blast
  let ?m = "[(''id'', JNum (NInt k)), (''content'', sql_text x (js_get b ''content'')),
            (''createdAt'', JDate (now x)), (''senderCompanyId'', JNum (NInt a)),
            (''receiverCompanyId'', JNum (NInt c))]"
  let ?new = "concat (map (\<lambda>cs. map (\<lambda>cr. (?m, cs, cr))
                     (filter (\<lambda>cr. sql_eq (col cr ''id'') (JNum (NInt c))) (rows (companies d))))
       (filter (\<lambda>cs. sql_eq (col cs ''id'') (JNum (NInt a))) (rows (companies d))))"
  have obj: "object_of (body r) = ?m" by (simp add: r reply_def)
  have id: "js_get ?m ''id'' = JNum (NInt k)" "col ?m ''id'' = JNum (NInt k)"
    "col ?m ''senderCompanyId'' = JNum (NInt a)" "col ?m ''receiverCompanyId'' = JNum (NInt c)"
    "col ?m ''content'' = sql_text x (js_get b ''content'')"
    by (simp_all add: js_get_def col_def)
  have one: "length ?new = 1"
    by (rule length_concat_one) (simp_all add: one_company [OF pk] ex)
  then obtain j where new: "?new = [j]" by (cases ?new) auto
  hence "j \<in> set ?new" by simp
  hence j: "fst j = ?m" by auto
  have listed: "\<exists>ms m. list_messages x d' q = reply 200 (Objs ms) \<and>
           filter (\<lambda>l. js_get l ''id'' = js_get (object_of (body r)) ''id'') ms = [m] \<and>
           js_get m ''senderCompanyId'' = JNum (NInt a) \<and>
           js_get m ''receiverCompanyId'' = JNum (NInt c) \<and>
           js_get m ''content'' = sql_text x (js_get b ''content'') \<and>
           sorted (map created_key ms)"
    if q: "Number_js x q = NInt n" "n \<noteq> 0" "n = a \<or> n = c" for q n
  proof -
    let ?js = "sort_key (\<lambda>j. created_key (fst j)) (message_joined d' n)"
    from q(3) sql_int_ok [OF a] sql_int_ok [OF c] have ok: "int_ok x n" by auto
    from q(3) have names: "names_company n ?m" by (auto simp: names_company_def is_int_def id)
    have run: "list_messages x d' q = reply 200 (Objs (map message_row ?js))"
      using cols q(1,2) ok same
      by (simp add: list_messages_def messages_query_def has_cols_def Let_def)
    have joined: "message_joined d' n = message_joined d n @ ?new"
      using message_joined_snoc [OF same(2) rows' names] by (simp add: id)
    have old: "filter (\<lambda>j. col (fst j) ''id'' = JNum (NInt k)) (message_joined d n) = []"
      using fresh by (auto simp: filter_empty_conv dest: message_joined_fst)
    have keep: "filter (\<lambda>j. col (fst j) ''id'' = JNum (NInt k)) ?new = ?new"
      by (auto simp: filter_id_conv id)
    have "filter (\<lambda>l. js_get l ''id'' = JNum (NInt k)) (map message_row ?js) =
       map message_row (filter (\<lambda>j. col (fst j) ''id'' = JNum (NInt k)) ?js)"
      by (simp add: filter_map comp_def message_row_fields)
    also have "filter (\<lambda>j. col (fst j) ''id'' = JNum (NInt k)) ?js =
       sort_key (\<lambda>j. created_key (fst j))
         (filter (\<lambda>j. col (fst j) ''id'' = JNum (NInt k)) (message_joined d' n))"
      by (simp add: filter_sort)
    also have "filter (\<lambda>j. col (fst j) ''id'' = JNum (NInt k)) (message_joined d' n) = [j]"
      using old keep new by (simp only: joined filter_append) simp
    finally have once: "filter (\<lambda>l. js_get l ''id'' = js_get (object_of (body r)) ''id'')
        (map message_row ?js) = [message_row j]" by (simp add: obj id(1))
    have "created_key \<circ> message_row = (\<lambda>j. created_key (fst j))"
      by (rule ext) (simp add: message_row_fields)
    hence ord: "sorted (map created_key (map message_row ?js))" by simp
    have fields: "js_get (message_row j) ''senderCompanyId'' = JNum (NInt a)"
      "js_get (message_row j) ''receiverCompanyId'' = JNum (NInt c)"
      "js_get (message_row j) ''content'' = sql_text x (js_get b ''content'')"
      by (simp_all add: message_row_fields j id)
    from run once ord fields show ?thesis by blast
  qed
  from a c listed show ?thesis by blast
qed

theorem sent_message_listed_once_witness:
  "status (fst (send_message sample_ext sample_db hi_message)) = 200 \<and>
   has_cols (companies sample_db) [''id'', ''name''] \<and>
   primary_key (companies sample_db) \<and>
   sql_int sample_ext (js_get hi_message ''senderCompanyId'') = BInt 3 \<and>
   sql_int sample_ext (js_get hi_message ''receiverCompanyId'') = BInt 4 \<and>
   Number_js sample_ext (JStr ''3'') = NInt 3 \<and> Number_js sample_ext (JStr ''4'') = NInt 4 \<and>
   js_get (object_of (body (fst (send_message sample_ext sample_db hi_message)))) ''id'' = JNum (NInt 100) \<and>
   (\<exists>ms m. list_messages sample_ext (snd (send_message sample_ext sample_db hi_message)) (JStr ''3'') =
        reply 200 (Objs ms) \<and>
      filter (\<lambda>l. js_get l ''id'' = JNum (NInt 100)) ms = [m] \<and>
      js_get m ''senderCompanyId'' = JNum (NInt 3) \<and> js_get m ''receiverCompanyId'' = JNum (NInt 4) \<and>
      js_get m ''content'' = JStr ''Hi'' \<and> sorted (map created_key ms)) \<and>
   (\<exists>ms m. list_messages sample_ext (snd (send_message sample_ext sample_db hi_message)) (JStr ''4'') =
        reply 200 (Objs ms) \<and>
      filter (\<lambda>l. js_get l ''id'' = JNum (NInt 100)) ms = [m] \<and>
      js_get m ''senderCompanyId'' = JNum (NInt 3) \<and> js_get m ''receiverCompanyId'' = JNum (NInt 4) \<and>
      js_get m ''content'' = JStr ''Hi'' \<and> sorted (map created_key ms))"
proof -
  let ?r = "fst (send_message sample_ext sample_db hi_message)"
  let ?d = "snd (send_message sample_ext sample_db hi_message)"
  have run: "send_message sample_ext sample_db hi_message = (?r, ?d)" by simp
  have ok: "status ?r = 200" by code_simp
  have c2: "has_cols (companies sample_db) [''id'', ''name'']" by code_simp
  have pk: "primary_key (companies sample_db)" by code_simp
  have s: "sql_int sample_ext (js_get hi_message ''senderCompanyId'') = BInt 3" by code_simp
  have rc: "sql_int sample_ext (js_get hi_message ''receiverCompanyId'') = BInt 4" by code_simp
  have q3: "Number_js sample_ext (JStr ''3'') = NInt 3" by code_simp
  have q4: "Number_js sample_ext (JStr ''4'') = NInt 4" by code_simp
  have id: "js_get (object_of (body ?r)) ''id'' = JNum (NInt 100)" by code_simp
  have t: "sql_text sample_ext (js_get hi_message ''content'') = JStr ''Hi''" by code_simp
  from sent_message_listed_once [OF run ok c2 pk] s rc
  have all: "\<forall>q n. Number_js sample_ext q = NInt n \<and> n \<noteq> 0 \<and> (n = 3 \<or> n = 4) \<longrightarrow>
        (\<exists>ms m. list_messages sample_ext ?d q = reply 200 (Objs ms) \<and>
           filter (\<lambda>l. js_get l ''id'' = js_get (object_of (body ?r)) ''id'') ms = [m] \<and>
           js_get m ''senderCompanyId'' = JNum (NInt 3) \<and>
           js_get m ''receiverCompanyId'' = JNum (NInt 4) \<and>
           js_get m ''content'' = sql_text sample_ext (js_get hi_message ''content'') \<and>
           sorted (map created_key ms))"
    by auto
  from all [rule_format, of "JStr ''3''" 3] all [rule_format, of "JStr ''4''" 4] q3 q4 id t
    ok c2 pk s rc
  show ?thesis by simp
qed

text \<open>
  The claim as stated fails at the guard of the listing: a company whose id is 0 can
  send a message (the id arrives as the string \<open>0\<close>, which is truthy), and the listing for
  it is answered 400, because its number is falsy.
\<close>

theorem list_for_company_zero_counterexample:
  "status (fst (send_message sample_ext zero_db from_zero)) = 200 \<and>
   js_get (object_of (body (fst (send_message sample_ext zero_db from_zero)))) ''senderCompanyId'' =
     JNum (NInt 0) \<and>
   list_messages sample_ext (snd (send_message sample_ext zero_db from_zero)) (JStr ''0'') =
     reply 400 (Msg ''companyId is required.'')"
  by code_simp

section \<open>Forum: the company of a post, the author of a comment\<close>











lemma lowerMap_Some: "lowerMap x cs key = Some k \<Longrightarrow> k \<in> set cs \<and> toLowerCase x k = key"
  by (auto simp: lowerMap_def dest!: map_of_SomeD)

lemma lowerMap_None: "lowerMap x cs key = None \<longleftrightarrow> key \<notin> toLowerCase x ` set cs"
  by (auto simp: lowerMap_def map_of_eq_None_iff image_iff)

lemma resolveColumn_Some:
  "resolveColumn x cs cands = Some k \<Longrightarrow> k \<in> set cs \<and> named_like x cands k"
  by (induction cands)
     (auto simp: named_like_def split: option.splits if_splits dest: lowerMap_Some)

lemma resolveColumn_None:
  assumes "[] \<notin> set cs"
  shows "resolveColumn x cs cands = None \<longleftrightarrow> \<not> (\<exists>k \<in> set cs. named_like x cands k)"
proof (induction cands)
  case Nil
  show ?case by (simp add: named_like_def)
next
  case (Cons c cands)
  show ?case
  proof (cases "lowerMap x cs (toLowerCase x c)")
    case None
    hence "\<forall>k \<in> set cs. toLowerCase x k \<noteq> toLowerCase x c"
      by (auto simp: lowerMap_None image_iff)
    with None Cons show ?thesis by (auto simp: named_like_def)
  next
    case (Some m)
    from lowerMap_Some [OF Some] assms have "m \<in> set cs" "toLowerCase x m = toLowerCase x c" "m \<noteq> []"
      by auto
    with Some show ?thesis by (auto simp: named_like_def)
  qed
qed

lemma has_column_resolve:
  "[] \<notin> set (cols t) \<Longrightarrow> has_column x t cands \<longleftrightarrow> resolveColumn x (cols t) cands \<noteq> None"
  by (simp add: has_column_def resolveColumn_None)

lemma comment_author_Some:
  assumes ne: "[] \<notin> set (cols (comments d))"
    and ca: "comment_author x d v u = (Some k, a)"
  shows "k \<in> set (cols (comments d)) \<and>
     (company_linked x d \<longrightarrow> named_like x [''companyId'', ''company_id''] k \<and> a = v) \<and>
     (\<not> company_linked x d \<and> user_linked x d \<longrightarrow> named_like x [''userId'', ''user_id''] k \<and> a = u) \<and>
     (\<not> company_linked x d \<and> \<not> user_linked x d \<longrightarrow>
        named_like x [''authorId'', ''author_id''] k \<and> a = (if references_user x d k then u else v))"
proof -
  let ?cs = "cols (comments d)"
  let ?c = "resolveColumn x ?cs [''companyId'', ''company_id'']"
  let ?u = "resolveColumn x ?cs [''userId'', ''user_id'']"
  let ?a = "resolveColumn x ?cs [''authorId'', ''author_id'']"
  have lc: "company_linked x d \<longleftrightarrow> ?c \<noteq> None"
    using has_column_resolve [OF ne] by (simp add: company_linked_def)
  have lu: "user_linked x d \<longleftrightarrow> ?u \<noteq> None"
    using has_column_resolve [OF ne] by (simp add: user_linked_def)
  from ca have r: "resolve_author x d ?c ?u ?a v u = (Some k, a)"
    by (simp add: comment_author_def getTableColumns_def Let_def del: resolveColumn.simps)
  show ?thesis
  proof (cases ?c)
    case (Some m)
    with r have "k = m" "a = v" by (simp_all add: resolve_author_def)
    moreover from resolveColumn_Some [OF Some] have "m \<in> set ?cs"
      "named_like x [''companyId'', ''company_id''] m" by blast+
    moreover from Some lc have "company_linked x d" by simp
    ultimately show ?thesis by blast
  next
    case None
    note c = None
    show ?thesis
    proof (cases ?u)
      case (Some m)
      with r c have "k = m" "a = u" by (simp_all add: resolve_author_def)
      moreover from resolveColumn_Some [OF Some] have "m \<in> set ?cs"
        "named_like x [''userId'', ''user_id''] m" by blast+
      moreover from Some c lc lu have "\<not> company_linked x d" "user_linked x d" by simp_all
      ultimately show ?thesis by blast
    next
      case None
      with r c obtain m where m: "?a = Some m"
        by (cases ?a) (auto simp: resolve_author_def)
      with r c None have "k = m" "a = (if references_user x d m then u else v)"
        by (auto simp: resolve_author_def references_user_def getForeignKeyTarget_def
                 split: option.splits if_splits)
      moreover from resolveColumn_Some [OF m] have "m \<in> set ?cs"
        "named_like x [''authorId'', ''author_id''] m" by blast+
      moreover from None c lc lu have "\<not> company_linked x d" "\<not> user_linked x d" by simp_all
      ultimately show ?thesis by blast
    qed
  qed
qed

lemma comment_author_None:
  assumes ne: "[] \<notin> set (cols (comments d))"
  shows "fst (comment_author x d v u) = None \<longleftrightarrow> no_author_column x d"
proof -
  let ?cs = "cols (comments d)"
  have l: "company_linked x d \<longleftrightarrow> resolveColumn x ?cs [''companyId'', ''company_id''] \<noteq> None"
    "user_linked x d \<longleftrightarrow> resolveColumn x ?cs [''userId'', ''user_id''] \<noteq> None"
    "generic_author x d \<longleftrightarrow> resolveColumn x ?cs [''authorId'', ''author_id''] \<noteq> None"
    using has_column_resolve [OF ne]
    by (simp_all add: company_linked_def user_linked_def generic_author_def)
  show ?thesis
    unfolding no_author_column_def l
    by (auto simp: comment_author_def getTableColumns_def resolve_author_def Let_def
             simp del: resolveColumn.simps split: option.splits)
qed

lemma comment_author_user:
  assumes ne: "[] \<notin> set (cols (comments d))" and "author_is_user x d"
  shows "\<exists>k. comment_author x d v u = (Some k, u)"
proof -
  obtain ko a where ca: "comment_author x d v u = (ko, a)" by (cases "comment_author x d v u") auto
  from assms(2) have "\<not> no_author_column x d"
    by (auto simp: author_is_user_def no_author_column_def)
  with comment_author_None [OF ne, of x v u] ca obtain k where k: "ko = Some k" by auto
  from comment_author_Some [OF ne ca [unfolded k]] assms(2) have "a = u"
    by (auto simp: author_is_user_def)
  with ca k show ?thesis by simp
qed

lemma created_stamp_cases:
  "(fst (created_stamp x (resolveColumn x cs cands)) = [] \<and>
    snd (created_stamp x (resolveColumn x cs cands)) = []) \<or>
   (\<exists>c. fst (created_stamp x (resolveColumn x cs cands)) = [c] \<and> c \<in> set cs \<and>
      named_like x cands c \<and> snd (created_stamp x (resolveColumn x cs cands)) = [JDate (now x)])"
proof (cases "resolveColumn x cs cands")
  case None
  thus ?thesis by (simp add: created_stamp_def)
next
  case (Some c)
  from resolveColumn_Some [OF Some] Some show ?thesis by (simp add: created_stamp_def)
qed

lemma comment_insert_Inr:
  assumes "comment_insert x d id_param b = Inr (columns, values)"
  shows "\<exists>v k a p. resolveCompanyId x d b = Inr v \<and>
     comment_author x d v (resolved_user x b) = (Some k, a) \<and> truthy a \<and>
     resolveColumn x (cols (comments d)) [''postId'', ''post_id''] = Some p \<and>
     columns = ''content'' # k # p #
       fst (created_stamp x (resolveColumn x (cols (comments d)) [''createdAt'', ''created_at''])) \<and>
     values = js_get b ''content'' # a # JNum (str_to_num x id_param) #
       snd (created_stamp x (resolveColumn x (cols (comments d)) [''createdAt'', ''created_at'']))"
  using assms
  by (auto simp: comment_insert_def Let_def getTableColumns_def simp del: resolveColumn.simps
           split: if_splits sum.splits list.splits option.splits prod.splits)

text \<open>
  C3, as amended. On a Comment table whose columns have names: whenever the handler gets
  as far as the lists for its \<open>INSERT\<close>, they are \<open>content\<close>, one author column, the post
  column and at most the creation time stamp, and the author value is truthy, never
  \<open>null\<close>: on a company-linked table the author is the company column with the resolved
  company; else on a user-linked table the user column with the user of the request;
  else the generic author column, with the user when its foreign key references \<open>User\<close>
  and the resolved company otherwise. And when the company resolution and lookup complete
  and the table has a post column, the answer is 400 if the table has no author column at
  all, or if the author is a user and the request gives none.
\<close>

theorem comment_author_resolved:
  assumes ne: "[] \<notin> set (cols (comments d))"
  shows "(\<forall>columns values. comment_insert x d id_param b = Inr (columns, values) \<longrightarrow>
       (\<exists>v k a p rest restv. resolveCompanyId x d b = Inr v \<and>
          columns = ''content'' # k # p # rest \<and>
          values = js_get b ''content'' # a # JNum (str_to_num x id_param) # restv \<and>
          k \<in> set (cols (comments d)) \<and> truthy a \<and>
          (company_linked x d \<longrightarrow> named_like x [''companyId'', ''company_id''] k \<and> a = v) \<and>
          (\<not> company_linked x d \<and> user_linked x d \<longrightarrow>
             named_like x [''userId'', ''user_id''] k \<and> a = resolved_user x b) \<and>
          (\<not> company_linked x d \<and> \<not> user_linked x d \<longrightarrow>
             named_like x [''authorId'', ''author_id''] k \<and>
             a = (if references_user x d k then resolved_user x b else v)) \<and>
          p \<in> set (cols (comments d)) \<and> named_like x [''postId'', ''post_id''] p \<and>
          ((rest = [] \<and> restv = []) \<or>
           (\<exists>c. rest = [c] \<and> c \<in> set (cols (comments d)) \<and>
              named_like x [''createdAt'', ''created_at''] c \<and> restv = [JDate (now x)])))) \<and>
     (\<forall>v rs. resolveCompanyId x d b = Inr v \<and> company_query x d [''id'', ''name''] v = Inr rs \<and>
        has_column x (comments d) [''postId'', ''post_id''] \<and>
        (no_author_column x d \<or> (author_is_user x d \<and> \<not> truthy (resolved_user x b))) \<longrightarrow>
        status (fst (post_comment x d id_param b)) = 400)"
proof (intro conjI allI impI)
  fix columns "values"
  let ?st = "created_stamp x (resolveColumn x (cols (comments d)) [''createdAt'', ''created_at''])"
  assume "comment_insert x d id_param b = Inr (columns, values)"
  from comment_insert_Inr [OF this] obtain v k a p where
    v: "resolveCompanyId x d b = Inr v"
    and ca: "comment_author x d v (resolved_user x b) = (Some k, a)" and a: "truthy a"
    and p: "resolveColumn x (cols (comments d)) [''postId'', ''post_id''] = Some p"
    and l: "columns = ''content'' # k # p # fst ?st"
      "values = js_get b ''content'' # a # JNum (str_to_num x id_param) # snd ?st" by blast
  note stamp = created_stamp_cases [of x "cols (comments d)" "[''createdAt'', ''created_at'']"]
  from comment_author_Some [OF ne ca] resolveColumn_Some [OF p] stamp v a l
  show "\<exists>v k a p rest restv. resolveCompanyId x d b = Inr v \<and>
          columns = ''content'' # k # p # rest \<and>
          values = js_get b ''content'' # a # JNum (str_to_num x id_param) # restv \<and>
          k \<in> set (cols (comments d)) \<and> truthy a \<and>
          (company_linked x d \<longrightarrow> named_like x [''companyId'', ''company_id''] k \<and> a = v) \<and>
          (\<not> company_linked x d \<and> user_linked x d \<longrightarrow>
             named_like x [''userId'', ''user_id''] k \<and> a = resolved_user x b) \<and>
          (\<not> company_linked x d \<and> \<not> user_linked x d \<longrightarrow>
             named_like x [''authorId'', ''author_id''] k \<and>
             a = (if references_user x d k then resolved_user x b else v)) \<and>
          p \<in> set (cols (comments d)) \<and> named_like x [''postId'', ''post_id''] p \<and>
          ((rest = [] \<and> restv = []) \<or>
           (\<exists>c. rest = [c] \<and> c \<in> set (cols (comments d)) \<and>
              named_like x [''createdAt'', ''created_at''] c \<and> restv = [JDate (now x)]))"
    by blast
next
  fix v rs
  assume h: "resolveCompanyId x d b = Inr v \<and> company_query x d [''id'', ''name''] v = Inr rs \<and>
        has_column x (comments d) [''postId'', ''post_id''] \<and>
        (no_author_column x d \<or> (author_is_user x d \<and> \<not> truthy (resolved_user x b)))"
  hence post: "resolveColumn x (cols (comments d)) [''postId'', ''post_id''] \<noteq> None"
    using has_column_resolve [OF ne] by simp
  from h have "fst (comment_author x d v (resolved_user x b)) = None \<or>
     \<not> truthy (snd (comment_author x d v (resolved_user x b)))"
    using comment_author_None [OF ne, of x v "resolved_user x b"]
      comment_author_user [OF ne, of x v "resolved_user x b"] by auto
  with h post show "status (fst (post_comment x d id_param b)) = 400"
    by (cases "comment_author x d v (resolved_user x b)")
       (auto simp: post_comment_def comment_insert_def Let_def reply_def getTableColumns_def
             simp del: resolveColumn.simps split: list.splits option.splits)
qed

theorem comment_author_resolved_witness:
  "[] \<notin> set (cols (comments sample_db)) \<and>
   comment_insert sample_ext sample_db ''10'' comment_by_acme =
     Inr ([''content'', ''authorId'', ''postId'', ''createdAt''],
          [JStr ''Well said'', JNum (NInt 3), JNum (NInt 10), JDate 1000]) \<and>
   \<not> company_linked sample_ext sample_db \<and> \<not> user_linked sample_ext sample_db \<and>
   \<not> references_user sample_ext sample_db ''authorId'' \<and>
   resolveCompanyId sample_ext sample_db comment_by_acme = Inr (JNum (NInt 3)) \<and>
   named_like sample_ext [''authorId'', ''author_id''] ''authorId'' \<and>
   truthy (JNum (NInt 3)) \<and>
   [] \<notin> set (cols (comments user_authored_db)) \<and>
   comment_insert sample_ext user_authored_db ''10'' comment_by_ann =
     Inr ([''content'', ''authorId'', ''postId'', ''createdAt''],
          [JStr ''Agreed'', JNum (NInt 1), JNum (NInt 10), JDate 1000]) \<and>
   references_user sample_ext user_authored_db ''authorId'' \<and>
   resolved_user sample_ext comment_by_ann = JNum (NInt 1) \<and>
   [] \<notin> set (cols (comments user_linked_db)) \<and>
   resolveCompanyId sample_ext user_linked_db comment_by_acme = Inr (JNum (NInt 3)) \<and>
   company_query sample_ext user_linked_db [''id'', ''name''] (JNum (NInt 3)) =
     Inr [[(''id'', JNum (NInt 3)), (''name'', JStr ''Acme'')]] \<and>
   has_column sample_ext (comments user_linked_db) [''postId'', ''post_id''] \<and>
   author_is_user sample_ext user_linked_db \<and>
   \<not> truthy (resolved_user sample_ext comment_by_acme) \<and>
   status (fst (post_comment sample_ext user_linked_db ''10'' comment_by_acme)) = 400"
proof -
  have s0: "[] \<notin> set (cols (comments sample_db))" by code_simp
  have s1: "comment_insert sample_ext sample_db ''10'' comment_by_acme =
     Inr ([''content'', ''authorId'', ''postId'', ''createdAt''],
          [JStr ''Well said'', JNum (NInt 3), JNum (NInt 10), JDate 1000])" by code_simp
  have s2: "\<not> company_linked sample_ext sample_db \<and> \<not> user_linked sample_ext sample_db \<and>
     \<not> references_user sample_ext sample_db ''authorId''" by code_simp
  have s3: "resolveCompanyId sample_ext sample_db comment_by_acme = Inr (JNum (NInt 3))"
    by code_simp
  from comment_author_resolved [OF s0, of sample_ext "''10''" comment_by_acme] s1 s2 s3
  have S: "named_like sample_ext [''authorId'', ''author_id''] ''authorId'' \<and> truthy (JNum (NInt 3))"
    by auto
  have a0: "[] \<notin> set (cols (comments user_authored_db))" by code_simp
  have a1: "comment_insert sample_ext user_authored_db ''10'' comment_by_ann =
     Inr ([''content'', ''authorId'', ''postId'', ''createdAt''],
          [JStr ''Agreed'', JNum (NInt 1), JNum (NInt 10), JDate 1000])" by code_simp
  have a2: "\<not> company_linked sample_ext user_authored_db \<and> \<not> user_linked sample_ext user_authored_db"
    by code_simp
  have a3: "resolveCompanyId sample_ext user_authored_db comment_by_ann = Inr (JNum (NInt 3))"
    by code_simp
  have a4: "resolved_user sample_ext comment_by_ann = JNum (NInt 1)" by code_simp
  from comment_author_resolved [OF a0, of sample_ext "''10''" comment_by_ann] a1 a2 a3 a4
  have A: "references_user sample_ext user_authored_db ''authorId''"
    by (auto split: if_splits)
  have u0: "[] \<notin> set (cols (comments user_linked_db))" by code_simp
  have u1: "resolveCompanyId sample_ext user_linked_db comment_by_acme = Inr (JNum (NInt 3))"
    by code_simp
  have u2: "company_query sample_ext user_linked_db [''id'', ''name''] (JNum (NInt 3)) =
     Inr [[(''id'', JNum (NInt 3)), (''name'', JStr ''Acme'')]]" by code_simp
  have u3: "has_column sample_ext (comments user_linked_db) [''postId'', ''post_id'']" by code_simp
  have u4: "author_is_user sample_ext user_linked_db" by code_simp
  have u5: "\<not> truthy (resolved_user sample_ext comment_by_acme)" by code_simp
  from comment_author_resolved [OF u0, of sample_ext "''10''" comment_by_acme] u1 u2 u3 u4 u5
  have U: "status (fst (post_comment sample_ext user_linked_db ''10'' comment_by_acme)) = 400"
    by blast
  from s0 s1 s2 s3 S a0 a1 A a4 u0 u1 u2 u3 u4 u5 U show ?thesis by simp
qed

text \<open>
  The claim as stated fails at the guard on the post column: this Comment table has no
  author column, so no author can be resolved, and it has no post column either; the
  answer is the 500 of that guard, not 400.
\<close>

theorem comment_without_post_column_counterexample:
  "cols (comments bare_comments_db) = [''id'', ''content''] \<and>
   comment_author sample_ext bare_comments_db (JNum (NInt 3)) JNull = (None, JNull) \<and>
   post_comment sample_ext bare_comments_db ''10'' comment_by_acme =
     (reply 500 (Msg ''Comment schema is missing post reference.''), bare_comments_db)"
  by code_simp

text \<open>
  With the identifier of line 1189 unbound, no request ever inserts a comment: every
  answer is the answer of one of the guards, or 500.
\<close>

lemma post_comment_never_inserts:
  "snd (post_comment x d id_param b) = d \<and> status (fst (post_comment x d id_param b)) \<noteq> 200"
  by (auto simp: post_comment_def comment_insert_def Let_def reply_def simp del: resolveColumn.simps
           split: sum.splits list.splits option.splits prod.splits if_splits)

end
